theory Spec2Isabelle
  imports Main "HOL-Library.AList"
begin

section \<open>Values exchanged with the evaluation service\<close>

text \<open>
  A JavaScript error object, as far as the client looks at it: its \<open>name\<close> and its
  \<open>message\<close>. \<open>new Error(m)\<close> is \<open>Error m\<close>.
\<close>

datatype error = JsError (errname: string) (message: string)

definition Error :: "string \<Rightarrow> error" where
  "Error m = JsError ''Error'' m"

definition TypeError :: "string \<Rightarrow> error" where
  "TypeError m = JsError ''TypeError'' m"

text \<open>
  A parsed JSON value. The client does no arithmetic, so a number is carried as the text
  that JavaScript's number-to-string conversion gives for it. An object is the list of its
  own properties in insertion order (keys distinct).
\<close>

datatype json =
    JNull
  | JBool bool
  | JNum string
  | JStr string
  | JArr "json list"
  | JObj "(string \<times> json) list"

fun join_with :: "string \<Rightarrow> string list \<Rightarrow> string" where
  "join_with sep [] = []"
| "join_with sep [x] = x"
| "join_with sep (x # y # ys) = x @ sep @ join_with sep (y # ys)"

text \<open>
  The string conversion of a template literal \<open>`${v}`\<close>. An array joins the conversions
  of its elements with commas (a null element gives the empty string). An object is
  converted by its \<open>toString\<close>: the inherited one gives \<open>[object Object]\<close>; an own
  property of that name, which in a parsed value is never a function, hides it, and the
  conversion throws a TypeError. \<open>Inl\<close> is that error.
\<close>

fun js_string :: "json \<Rightarrow> error + string"
  and js_strings :: "json list \<Rightarrow> error + string list" where
  "js_string JNull = Inr ''null''"
| "js_string (JBool b) = Inr (if b then ''true'' else ''false'')"
| "js_string (JNum n) = Inr n"
| "js_string (JStr s) = Inr s"
| "js_string (JArr xs) =
     (case js_strings xs of Inl e \<Rightarrow> Inl e | Inr ss \<Rightarrow> Inr (join_with '','' ss))"
| "js_string (JObj ps) =
     (case map_of ps ''toString'' of
        None \<Rightarrow> Inr ''[object Object]''
      | Some f \<Rightarrow> Inl (TypeError ''Cannot convert object to primitive value''))"
| "js_strings [] = Inr []"
| "js_strings (x # xs) =
     (case (if x = JNull then Inr [] else js_string x) of
        Inl e \<Rightarrow> Inl e
      | Inr y \<Rightarrow> (case js_strings xs of Inl e \<Rightarrow> Inl e | Inr ys \<Rightarrow> Inr (y # ys)))"

text \<open>
  Property access \<open>v.error\<close>: \<open>Inl\<close> is the TypeError of reading a property of null,
  \<open>Inr None\<close> is \<open>undefined\<close>.
\<close>

fun get_error :: "json \<Rightarrow> error + json option" where
  "get_error JNull = Inl (TypeError ''Cannot read properties of null'')"
| "get_error (JObj ps) = Inr (map_of ps ''error'')"
| "get_error v = Inr None"

text \<open>\<open>JSON.stringify\<close>, used for the debug log only.\<close>

definition hex_digit :: "nat \<Rightarrow> char" where
  "hex_digit n = (if n < 10 then char_of (48 + n) else char_of (87 + n))"

definition escape_char :: "char \<Rightarrow> string" where
  "escape_char c =
     (let n = (of_char c :: nat) in
      if n = 34 then [CHR 0x5C, CHR 0x22]
      else if n = 92 then [CHR 0x5C, CHR 0x5C]
      else if n = 8 then [CHR 0x5C, CHR ''b'']
      else if n = 12 then [CHR 0x5C, CHR ''f'']
      else if n = 10 then [CHR 0x5C, CHR ''n'']
      else if n = 13 then [CHR 0x5C, CHR ''r'']
      else if n = 9 then [CHR 0x5C, CHR ''t'']
      else if n < 32 then [CHR 0x5C, CHR ''u'', CHR ''0'', CHR ''0'', hex_digit (n div 16), hex_digit (n mod 16)]
      else [c])"

definition quote :: "string \<Rightarrow> string" where
  "quote s = [CHR 0x22] @ concat (map escape_char s) @ [CHR 0x22]"

fun stringify :: "json \<Rightarrow> string" where
  "stringify JNull = ''null''"
| "stringify (JBool b) = (if b then ''true'' else ''false'')"
| "stringify (JNum n) = n"
| "stringify (JStr s) = quote s"
| "stringify (JArr xs) = ''['' @ join_with '','' (map stringify xs) @ '']''"
| "stringify (JObj ps) =
     ''{'' @ join_with '','' (map (\<lambda>p. quote (fst p) @ '':'' @ stringify (snd p)) ps) @ ''}''"

text \<open>
  The request types of \<open>types.ts\<close>. The tests hand in objects that lack a field, so every
  field is optional here: \<open>None\<close> is a missing property.
\<close>

record user =
  user_id :: "string option"
  email :: "string option"

record request =
  flag :: "string option"
  environment :: "string option"
  user :: "user option"

section \<open>The transport collaborator\<close>

text \<open>
  A response exposes \<open>ok\<close>, what \<open>json()\<close> settles to and what \<open>text()\<close> settles to
  (\<open>Inl\<close> is a rejection).
\<close>

record response =
  ok :: bool
  json_body :: "error + json"
  text_body :: "error + string"

text \<open>
  The options object handed to the transport. The body is \<open>JSON.stringify(request)\<close>,
  kept as the request it encodes. \<open>signal\<close> is the abort signal, given as the delay after
  which it aborts; \<open>None\<close> when the options carry no signal.
\<close>

record fetch_init =
  http_method :: string
  headers :: "(string \<times> string) list"
  body :: request
  signal :: "int option"

text \<open>
  One transport call settles after \<open>elapsed\<close> milliseconds, to a rejection or a response.
  The transport is any function of its own state \<open>'w\<close>, the URL and the options.
\<close>

record fetch_outcome =
  elapsed :: int
  settled :: "error + response"

type_synonym 'w transport = "'w \<Rightarrow> string \<Rightarrow> fetch_init \<Rightarrow> fetch_outcome \<times> 'w"

section \<open>The client\<close>

datatype partition = Single | Multi

text \<open>A pending eviction timer: \<open>setTimeout(() => cache.delete(key), cacheTTL)\<close>.\<close>

datatype timer = Evict partition string int

text \<open>
  What the client does to the outside, in order: a message to the logger, a call of the
  transport, the abort timer of an attempt firing while its transport call is in flight
  (\<open>controller.abort()\<close>), and the wait between two attempts.
\<close>

datatype event =
    ELog string
  | EFetch string fetch_init
  | EAbort
  | ESleep int

record retry_policy =
  retries :: int
  delay :: int

text \<open>
  The fields of the class, followed by the pending eviction timers, the state of the
  transport and the trace of events. The field \<open>fetch\<close> is set by the constructor and
  never assigned again: it is the parameter \<open>fetch\<close> of the functions below. The logger
  sink is the trace. One call is modelled from its start to its end: no setter runs and no
  eviction timer fires while it waits. \<open>retries\<close>, \<open>delay\<close> and the timeouts are whole
  numbers.
\<close>

record 'w client =
  baseUrl :: string
  debug :: bool
  defaultTimeout :: int
  cacheTTL :: int
  customHeaders :: "(string \<times> string) list"
  flagCache :: "string \<rightharpoonup> json"
  flagsCache :: "string \<rightharpoonup> json"
  key :: string
  retryPolicy :: retry_policy
  timers :: "timer list"
  net :: 'w
  trace :: "event list"

record config =
  cfg_key :: "string option"
  cfg_baseUrl :: "string option"
  cfg_customHeaders :: "(string \<times> string) list option"
  cfg_debug :: "bool option"
  cfg_defaultTimeout :: "int option"

definition DEFAULT_BASE_URL :: string where
  "DEFAULT_BASE_URL = ''http://localhost:5173''"

text \<open>The regular expression \<open>/^[0-9a-f]{32}$/i\<close>.\<close>

definition hexchar :: "char \<Rightarrow> bool" where
  "hexchar c =
     (let n = (of_char c :: nat) in
      (48 \<le> n \<and> n \<le> 57) \<or> (97 \<le> n \<and> n \<le> 102) \<or> (65 \<le> n \<and> n \<le> 70))"

definition validateApiKey :: "string \<Rightarrow> bool" where
  "validateApiKey k = (length k = 32 \<and> list_all hexchar k)"

definition constructor :: "config \<Rightarrow> 'w \<Rightarrow> error + 'w client" where
  "constructor cfg w =
     (case cfg_key cfg of
        None \<Rightarrow> Inl (Error ''Invalid API key. The key must be a 32-character hexadecimal string.'')
      | Some k \<Rightarrow>
          if k = [] \<or> \<not> validateApiKey k
          then Inl (Error ''Invalid API key. The key must be a 32-character hexadecimal string.'')
          else Inr \<lparr>
            baseUrl = (case cfg_baseUrl cfg of None \<Rightarrow> DEFAULT_BASE_URL
                       | Some u \<Rightarrow> if u = [] then DEFAULT_BASE_URL else u),
            debug = (case cfg_debug cfg of None \<Rightarrow> False | Some d \<Rightarrow> d),
            defaultTimeout = (case cfg_defaultTimeout cfg of None \<Rightarrow> 5000
                              | Some t \<Rightarrow> if t = 0 then 5000 else t),
            cacheTTL = 0,
            customHeaders = (case cfg_customHeaders cfg of None \<Rightarrow> [] | Some h \<Rightarrow> h),
            flagCache = Map.empty,
            flagsCache = Map.empty,
            key = k,
            retryPolicy = \<lparr>retries = 3, delay = 1000\<rparr>,
            timers = [],
            net = w,
            trace = [] \<rparr>)"

definition log :: "'w client \<Rightarrow> string \<Rightarrow> 'w client" where
  "log s m =
     (if debug s then s\<lparr>trace := trace s @ [ELog (''[FeatureFlagClient] '' @ m)]\<rparr> else s)"

text \<open>
  The object spread of \<open>getHeaders\<close>: a custom header replaces the value of a key that is
  already there and is appended otherwise.
\<close>

definition getHeaders :: "'w client \<Rightarrow> (string \<times> string) list" where
  "getHeaders s =
     fold (\<lambda>p hs. AList.update (fst p) (snd p) hs) (customHeaders s)
       [(''Content-Type'', ''application/json''), (''x-api-key'', key s)]"

text \<open>
  \<open>isMultiple\<close> is \<open>False\<close> when the property is absent. A missing or empty string is
  falsy.
\<close>

definition falsy :: "string option \<Rightarrow> bool" where
  "falsy v = (case v of None \<Rightarrow> True | Some x \<Rightarrow> x = [])"

definition validateRequest :: "bool \<Rightarrow> request \<Rightarrow> error + unit" where
  "validateRequest isMultiple r =
     (if \<not> isMultiple \<and> flag r = None then Inl (Error ''Flag is required'')
      else if falsy (environment r) then Inl (Error ''Environment is required'')
      else if (case user r of None \<Rightarrow> True | Some u \<Rightarrow> falsy (user_id u))
        then Inl (Error ''User ID is required'')
      else Inr ())"

text \<open>A missing property reads as \<open>undefined\<close> in a template literal.\<close>

definition template :: "string option \<Rightarrow> string" where
  "template v = (case v of None \<Rightarrow> ''undefined'' | Some x \<Rightarrow> x)"

definition getCacheKey :: "request \<Rightarrow> error + string" where
  "getCacheKey r =
     (case user r of
        None \<Rightarrow> Inl (TypeError ''Cannot read properties of undefined'')
      | Some u \<Rightarrow> Inr (template (environment r) @ '':'' @ template (user_id u)))"

definition handleErrorResponse :: "response \<Rightarrow> string \<Rightarrow> error + json" where
  "handleErrorResponse r errorMessage =
     (if \<not> ok r then
        (let fromText = (case text_body r of
                           Inl e \<Rightarrow> Inl e
                         | Inr rawError \<Rightarrow> Inl (Error (errorMessage @ '': '' @ rawError)))
         in case json_body r of
              Inl jsonError \<Rightarrow> fromText
            | Inr errorResponse \<Rightarrow>
                (case get_error errorResponse of
                   Inl jsonError \<Rightarrow> fromText
                 | Inr None \<Rightarrow> Inl (Error (errorMessage @ '': '' @ ''Internal Server Error''))
                 | Inr (Some d) \<Rightarrow>
                     if d = JNull
                     then Inl (Error (errorMessage @ '': '' @ ''Internal Server Error''))
                     else (case js_string d of
                             Inl typeError \<Rightarrow> Inl typeError
                           | Inr errorDetail \<Rightarrow>
                               Inl (Error (errorMessage @ '': '' @ errorDetail)))))
      else json_body r)"

text \<open>A number in a template literal: its decimal digits, with a sign when negative.\<close>

definition digit :: "nat \<Rightarrow> char" where
  "digit d = char_of (d + 48)"

function digits :: "nat \<Rightarrow> string" where
  "digits n = (if 10 \<le> n then digits (n div 10) @ [digit (n mod 10)] else [digit n])"
  by pat_completeness auto
termination
  by (relation "measure (\<lambda>n. n)") auto

definition string_of_int :: "int \<Rightarrow> string" where
  "string_of_int i = (if i < 0 then CHR ''-'' # digits (nat (- i)) else digits (nat i))"

definition setCache :: "partition \<Rightarrow> string \<Rightarrow> json \<Rightarrow> 'w client \<Rightarrow> 'w client" where
  "setCache p k v s =
     (let s1 = (case p of
                  Single \<Rightarrow> s\<lparr>flagCache := (flagCache s)(k \<mapsto> v)\<rparr>
                | Multi \<Rightarrow> s\<lparr>flagsCache := (flagsCache s)(k \<mapsto> v)\<rparr>)
      in if cacheTTL s1 > 0 then s1\<lparr>timers := timers s1 @ [Evict p k (cacheTTL s1)]\<rparr> else s1)"

definition setApiKey :: "'w client \<Rightarrow> string \<Rightarrow> error + 'w client" where
  "setApiKey s k =
     (if k = [] then Inl (Error ''API key is required'')
      else Inr (log (s\<lparr>key := k\<rparr>) ''API key updated.''))"

definition setRetryPolicy :: "'w client \<Rightarrow> int \<Rightarrow> int \<Rightarrow> 'w client" where
  "setRetryPolicy s r d =
     log (s\<lparr>retryPolicy := \<lparr>retries = r, delay = d\<rparr>\<rparr>)
       (''Retry policy updated: '' @ string_of_int r @ '' retries with '' @ string_of_int d
          @ ''ms delay.'')"

section \<open>Evaluation\<close>

text \<open>
  The body of the \<open>try\<close> block up to the interpreted response: the abort timer is set,
  the transport is called with method, headers and body, and the response goes through
  \<open>handleErrorResponse\<close>. The timer fires before the transport call settles when the
  call takes longer than \<open>timeout\<close>; its callback is \<open>controller.abort()\<close>, on a
  controller whose signal is part of nothing. (When the transport rejects,
  \<open>clearTimeout\<close> is not reached and the timer fires later, to the same effect; the
  trace does not record that.)
\<close>

definition attempt_call ::
  "'w transport \<Rightarrow> 'w client \<Rightarrow> string \<Rightarrow> string \<Rightarrow> request \<Rightarrow> int \<Rightarrow> (error + json) \<times> 'w client"
where
  "attempt_call fetch s path errorMessage request timeout =
     (let url = baseUrl s @ path;
          init = \<lparr>http_method = ''POST'', headers = getHeaders s, body = request, signal = None\<rparr>;
          (out, w) = fetch (net s) url init;
          s1 = s\<lparr>net := w,
                 trace := trace s @ [EFetch url init] @ (if timeout < elapsed out then [EAbort] else [])\<rparr>
      in case settled out of
           Inl e \<Rightarrow> (Inl e, s1)
         | Inr response \<Rightarrow> (handleErrorResponse response errorMessage, s1))"

definition sleep :: "'w client \<Rightarrow> 'w client" where
  "sleep s = s\<lparr>trace := trace s @ [ESleep (delay (retryPolicy s))]\<rparr>"

text \<open>The \<open>for\<close> loop of \<open>evaluateFlags\<close>, from \<open>attempt\<close> on.\<close>

function evaluateFlags_loop ::
  "'w transport \<Rightarrow> 'w client \<Rightarrow> request \<Rightarrow> int \<Rightarrow> string \<Rightarrow> int \<Rightarrow> (error + json option) \<times> 'w client"
where
  "evaluateFlags_loop fetch s request timeout cacheKey attempt =
     (if attempt \<le> retries (retryPolicy s) then
        (let r = attempt_call fetch s ''/api/v1/evaluate/flags'' ''Failed to evaluate flags'' request timeout
         in case fst r of
              Inr flags \<Rightarrow>
                (Inr (Some flags),
                 setCache Multi cacheKey flags (log (snd r) (''Flags evaluated: '' @ stringify flags)))
            | Inl error \<Rightarrow>
                (let s2 = log (snd r) (''Attempt '' @ string_of_int attempt @ '' failed.'')
                 in if attempt = retries (retryPolicy s2) then (Inl (Error (message error)), s2)
                    else evaluateFlags_loop fetch (sleep s2) request timeout cacheKey (attempt + 1)))
      else (Inr None, s))"
  by pat_completeness auto
termination
  by (relation "measure (\<lambda>(fetch, s, request, timeout, cacheKey, attempt).
        nat (retries (retryPolicy s) + 1 - attempt))")
     (auto simp: log_def sleep_def attempt_call_def Let_def split: prod.splits sum.splits)

definition evaluateFlags ::
  "'w transport \<Rightarrow> 'w client \<Rightarrow> request \<Rightarrow> int option \<Rightarrow> (error + json option) \<times> 'w client"
where
  "evaluateFlags fetch s request timeout_arg =
     (let timeout = (case timeout_arg of None \<Rightarrow> defaultTimeout s | Some t \<Rightarrow> t);
          s0 = log s ''Evaluating flags...''
      in case validateRequest True request of
           Inl e \<Rightarrow> (Inl e, s0)
         | Inr u \<Rightarrow>
             (case getCacheKey request of
                Inl e \<Rightarrow> (Inl e, s0)
              | Inr cacheKey \<Rightarrow>
                  (case flagsCache s0 cacheKey of
                     Some v \<Rightarrow> (Inr (Some v), s0)
                   | None \<Rightarrow> evaluateFlags_loop fetch s0 request timeout cacheKey 1)))"

text \<open>The \<open>for\<close> loop of \<open>evaluateFlag\<close>: the last failure is rethrown as it is.\<close>

function evaluateFlag_loop ::
  "'w transport \<Rightarrow> 'w client \<Rightarrow> request \<Rightarrow> int \<Rightarrow> string \<Rightarrow> int \<Rightarrow> (error + json option) \<times> 'w client"
where
  "evaluateFlag_loop fetch s request timeout cacheKey attempt =
     (if attempt \<le> retries (retryPolicy s) then
        (let r = attempt_call fetch s ''/api/v1/evaluate/flag'' ''Failed to evaluate flag'' request timeout
         in case fst r of
              Inr flag' \<Rightarrow>
                (Inr (Some flag'),
                 setCache Single cacheKey flag' (log (snd r) (''Flag evaluated: '' @ stringify flag')))
            | Inl error \<Rightarrow>
                (let s2 = log (snd r) (''Attempt '' @ string_of_int attempt @ '' failed.'')
                 in if attempt \<ge> retries (retryPolicy s2) then (Inl error, s2)
                    else evaluateFlag_loop fetch (sleep s2) request timeout cacheKey (attempt + 1)))
      else (Inr None, s))"
  by pat_completeness auto
termination
  by (relation "measure (\<lambda>(fetch, s, request, timeout, cacheKey, attempt).
        nat (retries (retryPolicy s) + 1 - attempt))")
     (auto simp: log_def sleep_def attempt_call_def Let_def split: prod.splits sum.splits)

definition evaluateFlag ::
  "'w transport \<Rightarrow> 'w client \<Rightarrow> request \<Rightarrow> int option \<Rightarrow> (error + json option) \<times> 'w client"
where
  "evaluateFlag fetch s request timeout_arg =
     (let timeout = (case timeout_arg of None \<Rightarrow> defaultTimeout s | Some t \<Rightarrow> t);
          s0 = log s ''Evaluating flag...''
      in case validateRequest False request of
           Inl e \<Rightarrow> (Inl e, s0)
         | Inr u \<Rightarrow>
             (case getCacheKey request of
                Inl e \<Rightarrow> (Inl e, s0)
              | Inr cacheKey \<Rightarrow>
                  (case flagCache s0 cacheKey of
                     Some v \<Rightarrow> (Inr (Some v), s0)
                   | None \<Rightarrow> evaluateFlag_loop fetch s0 request timeout cacheKey 1)))"

declare evaluateFlags_loop.simps [simp del] evaluateFlag_loop.simps [simp del] digits.simps [simp del]

section \<open>Observing a run\<close>

text \<open>
  The network side of a trace: the transport calls and the waits, in order, without the
  log messages and the abort timers.
\<close>

datatype step = Call | Wait int

fun steps :: "event list \<Rightarrow> step list" where
  "steps [] = []"
| "steps (EFetch u i # es) = Call # steps es"
| "steps (ESleep d # es) = Wait d # steps es"
| "steps (e # es) = steps es"

definition network_calls :: "'w client \<Rightarrow> nat" where
  "network_calls s = length (filter (\<lambda>x. x = Call) (steps (trace s)))"

text \<open>
  A transport call that makes its attempt fail: it rejects, or its response has a status
  outside the success range, or the body of its success response does not parse.
\<close>

definition attempt_fails :: "fetch_outcome \<Rightarrow> bool" where
  "attempt_fails out =
     (case settled out of Inl e \<Rightarrow> True | Inr resp \<Rightarrow> \<not> ok resp \<or> isl (json_body resp))"

section \<open>Example inputs\<close>

text \<open>The client, the requests and the flags of the test suite; the logger is off.\<close>

definition ex_client :: "nat client" where
  "ex_client = \<lparr>
     baseUrl = ''https://api.example.com'',
     debug = False,
     defaultTimeout = 5000,
     cacheTTL = 0,
     customHeaders = [],
     flagCache = Map.empty,
     flagsCache = Map.empty,
     key = ''0da8f357ce7a2b01effe5992f295a592'',
     retryPolicy = \<lparr>retries = 3, delay = 1000\<rparr>,
     timers = [],
     net = 0,
     trace = [] \<rparr>"

definition ex_request :: request where
  "ex_request = \<lparr>
     flag = None,
     environment = Some ''production'',
     user = Some \<lparr>user_id = Some ''user1'', email = Some ''user1@example.com''\<rparr> \<rparr>"

definition ex_flag_request :: request where
  "ex_flag_request = ex_request\<lparr>flag := Some ''flag-example''\<rparr>"

definition ex_flags :: json where
  "ex_flags = JArr [JObj [(''flag'', JStr ''feature1''), (''enabled'', JBool True)],
                    JObj [(''flag'', JStr ''feature2''), (''enabled'', JBool False)]]"

definition ex_flag :: json where
  "ex_flag = JObj [(''flag'', JStr ''feature1''), (''enabled'', JBool True)]"

definition ok_response :: "json \<Rightarrow> response" where
  "ok_response j = \<lparr>ok = True, json_body = Inr j, text_body = Inr (stringify j)\<rparr>"

text \<open>The transports count their calls. This one always rejects, after 5 ms.\<close>

definition failing_transport :: "nat transport" where
  "failing_transport w url init =
     (\<lparr>elapsed = 5, settled = Inl (TypeError ''Failed to fetch'')\<rparr>, Suc w)"

text \<open>
  A transport that answers after 100 ms and honours an abort signal: handed a signal that
  aborts earlier, it rejects with an AbortError at that moment.
\<close>

definition slow_transport :: "json \<Rightarrow> nat transport" where
  "slow_transport j w url init =
     (case signal init of
        None \<Rightarrow> (\<lparr>elapsed = 100, settled = Inr (ok_response j)\<rparr>, Suc w)
      | Some t \<Rightarrow>
          if t < 100
          then (\<lparr>elapsed = t, settled = Inl (JsError ''AbortError'' ''The operation was aborted.'')\<rparr>, Suc w)
          else (\<lparr>elapsed = 100, settled = Inr (ok_response j)\<rparr>, Suc w))"

text \<open>
  A transport whose first answer has a success status and a body that is not JSON, and
  whose later answers are well-formed.
\<close>

definition malformed_response :: response where
  "malformed_response =
     \<lparr>ok = True, json_body = Inl (JsError ''SyntaxError'' ''Unexpected token < in JSON''),
      text_body = Inr ''<html>''\<rparr>"

definition flaky_transport :: "json \<Rightarrow> nat transport" where
  "flaky_transport j w url init =
     (if w = 0 then (\<lparr>elapsed = 5, settled = Inr malformed_response\<rparr>, Suc w)
      else (\<lparr>elapsed = 5, settled = Inr (ok_response j)\<rparr>, Suc w))"

definition malformed_transport :: "nat transport" where
  "malformed_transport w url init = (\<lparr>elapsed = 5, settled = Inr malformed_response\<rparr>, Suc w)"

text \<open>
  A transport that answers every call with the same response, and a response with status
  500 whose body is the JSON literal \<open>null\<close>.
\<close>

definition answering_transport :: "response \<Rightarrow> nat transport" where
  "answering_transport resp w url init = (\<lparr>elapsed = 5, settled = Inr resp\<rparr>, Suc w)"

definition null_body_response :: response where
  "null_body_response = \<lparr>ok = False, json_body = Inr JNull, text_body = Inr ''null''\<rparr>"

section \<open>Frame lemmas\<close>

lemma steps_append [simp]: "steps (xs @ ys) = steps xs @ steps ys"
  by (induction xs rule: steps.induct) auto

lemma calls_replicate:
  "length (filter (\<lambda>x. x = Call) (concat (replicate n [Call, Wait d]))) = n"
  by (induction n) auto

lemma log_frame [simp]:
  "flagCache (log s m) = flagCache s"
  "flagsCache (log s m) = flagsCache s"
  "net (log s m) = net s"
  "steps (trace (log s m)) = steps (trace s)"
  "key (log s m) = key s"
  "timers (log s m) = timers s"
  "retryPolicy (log s m) = retryPolicy s"
  "defaultTimeout (log s m) = defaultTimeout s"
  by (simp_all add: log_def)

lemma sleep_frame [simp]:
  "flagCache (sleep s) = flagCache s"
  "flagsCache (sleep s) = flagsCache s"
  "steps (trace (sleep s)) = steps (trace s) @ [Wait (delay (retryPolicy s))]"
  "key (sleep s) = key s"
  "retryPolicy (sleep s) = retryPolicy s"
  by (simp_all add: sleep_def)

lemma attempt_call_frame [simp]:
  "flagCache (snd (attempt_call fetch s p m r t)) = flagCache s"
  "flagsCache (snd (attempt_call fetch s p m r t)) = flagsCache s"
  "key (snd (attempt_call fetch s p m r t)) = key s"
  "retryPolicy (snd (attempt_call fetch s p m r t)) = retryPolicy s"
  "steps (trace (snd (attempt_call fetch s p m r t))) = steps (trace s) @ [Call]"
  by (simp_all add: attempt_call_def Let_def split: prod.splits sum.splits)

lemma setCache_frame [simp]:
  "key (setCache c k v s) = key s"
  "trace (setCache c k v s) = trace s"
  "flagCache (setCache Single k v s) k = Some v"
  "flagsCache (setCache Multi k v s) k = Some v"
  by (simp_all add: setCache_def Let_def split: partition.splits)

lemma network_calls_frame [simp]:
  "network_calls (log s m) = network_calls s"
  "network_calls (sleep s) = network_calls s"
  "network_calls (snd (attempt_call fetch s p m' r t)) = Suc (network_calls s)"
  "network_calls (setCache c k v s) = network_calls s"
  by (simp_all add: network_calls_def)

lemma valid_request_key:
  assumes "environment r = Some env" "env \<noteq> []" "user r = Some u" "user_id u = Some uid" "uid \<noteq> []"
  shows "validateRequest True r = Inr ()"
    and "flag r \<noteq> None \<Longrightarrow> validateRequest False r = Inr ()"
    and "getCacheKey r = Inr (env @ '':'' @ uid)"
  using assms by (auto simp: validateRequest_def falsy_def getCacheKey_def template_def)

lemma validateRequest_Inr:
  assumes "validateRequest m r = Inr x"
  shows "\<exists>env u uid. environment r = Some env \<and> env \<noteq> [] \<and> user r = Some u
           \<and> user_id u = Some uid \<and> uid \<noteq> [] \<and> (m \<or> flag r \<noteq> None)"
  using assms
  by (auto simp: validateRequest_def falsy_def split: option.splits if_splits)

section \<open>Failing attempts\<close>

text \<open>The outcome of an attempt does not depend on the timeout.\<close>

lemma attempt_call_ignores_timeout:
  "fst (attempt_call fetch s p m r t) = fst (attempt_call fetch s p m r t')"
  by (simp add: attempt_call_def Let_def split: prod.splits sum.splits)

lemma handleErrorResponse_fails:
  assumes "\<not> ok resp \<or> isl (json_body resp)"
  shows "\<exists>e. handleErrorResponse resp m = Inl e"
proof (cases "ok resp")
  case True
  with assms obtain e where "json_body resp = Inl e" by (cases "json_body resp") auto
  with True show ?thesis by (simp add: handleErrorResponse_def)
next
  case False
  then show ?thesis
    by (simp add: handleErrorResponse_def Let_def split: sum.splits option.splits)
qed

lemma attempt_call_fails:
  assumes "\<And>w url init. attempt_fails (fst (fetch w url init))"
  shows "\<exists>e. fst (attempt_call fetch s p m r t) = Inl e"
proof -
  let ?init = "\<lparr>http_method = ''POST'', headers = getHeaders s, body = r, signal = None\<rparr>"
  obtain out w where f: "fetch (net s) (baseUrl s @ p) ?init = (out, w)"
    by (cases "fetch (net s) (baseUrl s @ p) ?init") auto
  have af: "attempt_fails out" using assms [of "net s" "baseUrl s @ p" ?init] f by simp
  show ?thesis
  proof (cases "settled out")
    case (Inl e)
    then show ?thesis using f by (simp add: attempt_call_def Let_def)
  next
    case (Inr resp)
    with af have "\<not> ok resp \<or> isl (json_body resp)" by (simp add: attempt_fails_def)
    from handleErrorResponse_fails [OF this, of m] Inr f show ?thesis
      by (auto simp: attempt_call_def Let_def)
  qed
qed

lemma attempt_call_malformed:
  assumes "\<And>url init. settled (fst (fetch (net s) url init)) = Inr resp"
      and "ok resp" "json_body resp = Inl e"
  shows "fst (attempt_call fetch s p m r t) = Inl e"
proof -
  let ?init = "\<lparr>http_method = ''POST'', headers = getHeaders s, body = r, signal = None\<rparr>"
  obtain out w where f: "fetch (net s) (baseUrl s @ p) ?init = (out, w)"
    by (cases "fetch (net s) (baseUrl s @ p) ?init") auto
  have "settled out = Inr resp" using assms(1) [of "baseUrl s @ p" ?init] f by simp
  then show ?thesis using f assms(2,3)
    by (simp add: attempt_call_def Let_def handleErrorResponse_def)
qed

section \<open>The retry loops\<close>

text \<open>One unfolding of each loop, by the outcome of the attempt.\<close>

lemma flags_loop_done:
  "\<not> a \<le> retries (retryPolicy s) \<Longrightarrow> evaluateFlags_loop fetch s r t k a = (Inr None, s)"
  by (subst evaluateFlags_loop.simps) simp

lemma flags_loop_success:
  assumes "a \<le> retries (retryPolicy s)"
      and "fst (attempt_call fetch s ''/api/v1/evaluate/flags'' ''Failed to evaluate flags'' r t) = Inr v"
  shows "evaluateFlags_loop fetch s r t k a =
           (Inr (Some v),
            setCache Multi k v
              (log (snd (attempt_call fetch s ''/api/v1/evaluate/flags'' ''Failed to evaluate flags'' r t))
                 (''Flags evaluated: '' @ stringify v)))"
  using assms by (subst evaluateFlags_loop.simps) (simp add: Let_def)

lemma flags_loop_last:
  assumes "a = retries (retryPolicy s)"
      and "fst (attempt_call fetch s ''/api/v1/evaluate/flags'' ''Failed to evaluate flags'' r t) = Inl e"
  shows "evaluateFlags_loop fetch s r t k a =
           (Inl (Error (message e)),
            log (snd (attempt_call fetch s ''/api/v1/evaluate/flags'' ''Failed to evaluate flags'' r t))
              (''Attempt '' @ string_of_int a @ '' failed.''))"
  using assms by (subst evaluateFlags_loop.simps) (simp add: Let_def)

lemma flags_loop_retry:
  assumes "a < retries (retryPolicy s)"
      and "fst (attempt_call fetch s ''/api/v1/evaluate/flags'' ''Failed to evaluate flags'' r t) = Inl e"
  shows "evaluateFlags_loop fetch s r t k a =
           evaluateFlags_loop fetch
             (sleep (log (snd (attempt_call fetch s ''/api/v1/evaluate/flags'' ''Failed to evaluate flags'' r t))
                (''Attempt '' @ string_of_int a @ '' failed.''))) r t k (a + 1)"
  using assms by (subst evaluateFlags_loop.simps) (simp add: Let_def)

lemma flag_loop_done:
  "\<not> a \<le> retries (retryPolicy s) \<Longrightarrow> evaluateFlag_loop fetch s r t k a = (Inr None, s)"
  by (subst evaluateFlag_loop.simps) simp

lemma flag_loop_success:
  assumes "a \<le> retries (retryPolicy s)"
      and "fst (attempt_call fetch s ''/api/v1/evaluate/flag'' ''Failed to evaluate flag'' r t) = Inr v"
  shows "evaluateFlag_loop fetch s r t k a =
           (Inr (Some v),
            setCache Single k v
              (log (snd (attempt_call fetch s ''/api/v1/evaluate/flag'' ''Failed to evaluate flag'' r t))
                 (''Flag evaluated: '' @ stringify v)))"
  using assms by (subst evaluateFlag_loop.simps) (simp add: Let_def)

lemma flag_loop_last:
  assumes "a = retries (retryPolicy s)"
      and "fst (attempt_call fetch s ''/api/v1/evaluate/flag'' ''Failed to evaluate flag'' r t) = Inl e"
  shows "evaluateFlag_loop fetch s r t k a =
           (Inl e,
            log (snd (attempt_call fetch s ''/api/v1/evaluate/flag'' ''Failed to evaluate flag'' r t))
              (''Attempt '' @ string_of_int a @ '' failed.''))"
  using assms by (subst evaluateFlag_loop.simps) (simp add: Let_def)

lemma flag_loop_retry:
  assumes "a < retries (retryPolicy s)"
      and "fst (attempt_call fetch s ''/api/v1/evaluate/flag'' ''Failed to evaluate flag'' r t) = Inl e"
  shows "evaluateFlag_loop fetch s r t k a =
           evaluateFlag_loop fetch
             (sleep (log (snd (attempt_call fetch s ''/api/v1/evaluate/flag'' ''Failed to evaluate flag'' r t))
                (''Attempt '' @ string_of_int a @ '' failed.''))) r t k (a + 1)"
  using assms by (subst evaluateFlag_loop.simps) (simp add: Let_def)

text \<open>
  The four cases of a loop step, as a rule: the loop is over, the attempt succeeds, the
  last attempt fails, an earlier attempt fails.
\<close>

lemma attempt_cases:
  fixes a :: int
  obtains (over) "\<not> a \<le> n"
    | (success) v where "a \<le> n" "x = Inr v"
    | (final) e where "a = n" "x = Inl e"
    | (retry) e where "a < n" "x = Inl e"
proof (cases "a \<le> n")
  case False
  then show ?thesis by (rule over)
next
  case le: True
  show ?thesis
  proof (cases x)
    case (Inr v)
    with le show ?thesis by (rule success)
  next
    case (Inl e)
    show ?thesis
    proof (cases "a = n")
      case True
      then show ?thesis using Inl by (rule final)
    next
      case False
      with le have "a < n" by simp
      then show ?thesis using Inl by (rule retry)
    qed
  qed
qed

text \<open>
  What every run of a loop keeps: the key is untouched, calls are only added, a value that
  is returned has been written to the cache, and an error that is raised comes from a
  failed attempt.
\<close>

lemma flags_loop_invariant:
  "key (snd (evaluateFlags_loop fetch s r t k a)) = key s
   \<and> network_calls s \<le> network_calls (snd (evaluateFlags_loop fetch s r t k a))
   \<and> (\<forall>v. fst (evaluateFlags_loop fetch s r t k a) = Inr (Some v) \<longrightarrow>
          flagsCache (snd (evaluateFlags_loop fetch s r t k a)) k = Some v)
   \<and> (\<forall>err. fst (evaluateFlags_loop fetch s r t k a) = Inl err \<longrightarrow>
          (\<exists>s' e. fst (attempt_call fetch s' ''/api/v1/evaluate/flags'' ''Failed to evaluate flags'' r t) = Inl e
                 \<and> err = Error (message e)))"
proof (induction "nat (retries (retryPolicy s) + 1 - a)" arbitrary: s a)
  case 0
  then have "\<not> a \<le> retries (retryPolicy s)" by simp
  then show ?case by (simp add: flags_loop_done)
next
  case (Suc n)
  let ?r = "attempt_call fetch s ''/api/v1/evaluate/flags'' ''Failed to evaluate flags'' r t"
  show ?case
  proof (cases rule: attempt_cases [where a = a and n = "retries (retryPolicy s)" and x = "fst ?r"])
    case over
    then show ?thesis by (simp add: flags_loop_done)
  next
    case (success v)
    then show ?thesis by (simp add: flags_loop_success)
  next
    case (final e)
    then show ?thesis by (auto simp: flags_loop_last)
  next
    case (retry e)
    let ?s' = "sleep (log (snd ?r) (''Attempt '' @ string_of_int a @ '' failed.''))"
    have "n = nat (retries (retryPolicy ?s') + 1 - (a + 1))" using Suc.hyps(2) by simp
    from Suc.hyps(1) [OF this] show ?thesis
      by (simp add: flags_loop_retry [OF retry])
  qed
qed

lemma flag_loop_invariant:
  "key (snd (evaluateFlag_loop fetch s r t k a)) = key s
   \<and> network_calls s \<le> network_calls (snd (evaluateFlag_loop fetch s r t k a))
   \<and> (\<forall>v. fst (evaluateFlag_loop fetch s r t k a) = Inr (Some v) \<longrightarrow>
          flagCache (snd (evaluateFlag_loop fetch s r t k a)) k = Some v)
   \<and> (\<forall>err. fst (evaluateFlag_loop fetch s r t k a) = Inl err \<longrightarrow>
          (\<exists>s'. fst (attempt_call fetch s' ''/api/v1/evaluate/flag'' ''Failed to evaluate flag'' r t) = Inl err))"
proof (induction "nat (retries (retryPolicy s) + 1 - a)" arbitrary: s a)
  case 0
  then have "\<not> a \<le> retries (retryPolicy s)" by simp
  then show ?case by (simp add: flag_loop_done)
next
  case (Suc n)
  let ?r = "attempt_call fetch s ''/api/v1/evaluate/flag'' ''Failed to evaluate flag'' r t"
  show ?case
  proof (cases rule: attempt_cases [where a = a and n = "retries (retryPolicy s)" and x = "fst ?r"])
    case over
    then show ?thesis by (simp add: flag_loop_done)
  next
    case (success v)
    then show ?thesis by (simp add: flag_loop_success)
  next
    case (final e)
    then show ?thesis by (auto simp: flag_loop_last)
  next
    case (retry e)
    let ?s' = "sleep (log (snd ?r) (''Attempt '' @ string_of_int a @ '' failed.''))"
    have "n = nat (retries (retryPolicy ?s') + 1 - (a + 1))" using Suc.hyps(2) by simp
    from Suc.hyps(1) [OF this] show ?thesis
      by (simp add: flag_loop_retry [OF retry])
  qed
qed

text \<open>A loop that still has an attempt left calls the transport at least once.\<close>

lemma flags_loop_calls:
  assumes "a \<le> retries (retryPolicy s)"
  shows "Suc (network_calls s) \<le> network_calls (snd (evaluateFlags_loop fetch s r t k a))"
proof -
  let ?r = "attempt_call fetch s ''/api/v1/evaluate/flags'' ''Failed to evaluate flags'' r t"
  show ?thesis
  proof (cases rule: attempt_cases [where a = a and n = "retries (retryPolicy s)" and x = "fst ?r"])
    case over
    with assms show ?thesis by simp
  next
    case (success v)
    then show ?thesis by (simp add: flags_loop_success)
  next
    case (final e)
    then show ?thesis by (simp add: flags_loop_last)
  next
    case (retry e)
    let ?s' = "sleep (log (snd ?r) (''Attempt '' @ string_of_int a @ '' failed.''))"
    have "network_calls ?s' \<le> network_calls (snd (evaluateFlags_loop fetch ?s' r t k (a + 1)))"
      using flags_loop_invariant by blast
    then show ?thesis by (simp add: flags_loop_retry [OF retry])
  qed
qed

lemma flag_loop_calls:
  assumes "a \<le> retries (retryPolicy s)"
  shows "Suc (network_calls s) \<le> network_calls (snd (evaluateFlag_loop fetch s r t k a))"
proof -
  let ?r = "attempt_call fetch s ''/api/v1/evaluate/flag'' ''Failed to evaluate flag'' r t"
  show ?thesis
  proof (cases rule: attempt_cases [where a = a and n = "retries (retryPolicy s)" and x = "fst ?r"])
    case over
    with assms show ?thesis by simp
  next
    case (success v)
    then show ?thesis by (simp add: flag_loop_success)
  next
    case (final e)
    then show ?thesis by (simp add: flag_loop_last)
  next
    case (retry e)
    let ?s' = "sleep (log (snd ?r) (''Attempt '' @ string_of_int a @ '' failed.''))"
    have "network_calls ?s' \<le> network_calls (snd (evaluateFlag_loop fetch ?s' r t k (a + 1)))"
      using flag_loop_invariant by blast
    then show ?thesis by (simp add: flag_loop_retry [OF retry])
  qed
qed

text \<open>
  When every transport call fails, the loop runs to the last attempt: \<open>s_last\<close> is the
  state in which that attempt starts.
\<close>

lemma flags_loop_all_fail:
  assumes fails: "\<And>w url init. attempt_fails (fst (fetch w url init))"
  shows "a \<le> retries (retryPolicy s) \<Longrightarrow> n = nat (retries (retryPolicy s) - a) \<Longrightarrow>
    \<exists>s_last e. fst (attempt_call fetch s_last ''/api/v1/evaluate/flags'' ''Failed to evaluate flags'' r t) = Inl e
       \<and> steps (trace s_last) = steps (trace s) @ concat (replicate n [Call, Wait (delay (retryPolicy s))])
       \<and> evaluateFlags_loop fetch s r t k a =
           (Inl (Error (message e)),
            log (snd (attempt_call fetch s_last ''/api/v1/evaluate/flags'' ''Failed to evaluate flags'' r t))
              (''Attempt '' @ string_of_int (retries (retryPolicy s)) @ '' failed.''))"
proof (induction n arbitrary: s a)
  case 0
  then have a: "a = retries (retryPolicy s)" by simp
  obtain e where e: "fst (attempt_call fetch s ''/api/v1/evaluate/flags'' ''Failed to evaluate flags'' r t) = Inl e"
    using attempt_call_fails [of fetch] fails by blast
  from flags_loop_last [OF a e] e a show ?case by auto
next
  case (Suc n)
  then have lt: "a < retries (retryPolicy s)" by simp
  obtain e where e: "fst (attempt_call fetch s ''/api/v1/evaluate/flags'' ''Failed to evaluate flags'' r t) = Inl e"
    using attempt_call_fails [of fetch] fails by blast
  let ?s' = "sleep (log (snd (attempt_call fetch s ''/api/v1/evaluate/flags'' ''Failed to evaluate flags'' r t))
              (''Attempt '' @ string_of_int a @ '' failed.''))"
  have rp: "retryPolicy ?s' = retryPolicy s" by simp
  have "a + 1 \<le> retries (retryPolicy ?s')" "n = nat (retries (retryPolicy ?s') - (a + 1))"
    using lt Suc.prems by (simp_all add: rp)
  from Suc.IH [OF this] obtain s_last e' where
    1: "fst (attempt_call fetch s_last ''/api/v1/evaluate/flags'' ''Failed to evaluate flags'' r t) = Inl e'"
    and 2: "steps (trace s_last) = steps (trace ?s') @ concat (replicate n [Call, Wait (delay (retryPolicy ?s'))])"
    and 3: "evaluateFlags_loop fetch ?s' r t k (a + 1) =
           (Inl (Error (message e')),
            log (snd (attempt_call fetch s_last ''/api/v1/evaluate/flags'' ''Failed to evaluate flags'' r t))
              (''Attempt '' @ string_of_int (retries (retryPolicy ?s')) @ '' failed.''))"
    by blast
  have "steps (trace s_last) = steps (trace s) @ concat (replicate (Suc n) [Call, Wait (delay (retryPolicy s))])"
    using 2 by (simp add: rp)
  with 1 3 flags_loop_retry [OF lt e] rp show ?case by auto
qed

lemma flag_loop_all_fail:
  assumes fails: "\<And>w url init. attempt_fails (fst (fetch w url init))"
  shows "a \<le> retries (retryPolicy s) \<Longrightarrow> n = nat (retries (retryPolicy s) - a) \<Longrightarrow>
    \<exists>s_last e. fst (attempt_call fetch s_last ''/api/v1/evaluate/flag'' ''Failed to evaluate flag'' r t) = Inl e
       \<and> steps (trace s_last) = steps (trace s) @ concat (replicate n [Call, Wait (delay (retryPolicy s))])
       \<and> evaluateFlag_loop fetch s r t k a =
           (Inl e,
            log (snd (attempt_call fetch s_last ''/api/v1/evaluate/flag'' ''Failed to evaluate flag'' r t))
              (''Attempt '' @ string_of_int (retries (retryPolicy s)) @ '' failed.''))"
proof (induction n arbitrary: s a)
  case 0
  then have a: "a = retries (retryPolicy s)" by simp
  obtain e where e: "fst (attempt_call fetch s ''/api/v1/evaluate/flag'' ''Failed to evaluate flag'' r t) = Inl e"
    using attempt_call_fails [of fetch] fails by blast
  from flag_loop_last [OF a e] e a show ?case by auto
next
  case (Suc n)
  then have lt: "a < retries (retryPolicy s)" by simp
  obtain e where e: "fst (attempt_call fetch s ''/api/v1/evaluate/flag'' ''Failed to evaluate flag'' r t) = Inl e"
    using attempt_call_fails [of fetch] fails by blast
  let ?s' = "sleep (log (snd (attempt_call fetch s ''/api/v1/evaluate/flag'' ''Failed to evaluate flag'' r t))
              (''Attempt '' @ string_of_int a @ '' failed.''))"
  have rp: "retryPolicy ?s' = retryPolicy s" by simp
  have "a + 1 \<le> retries (retryPolicy ?s')" "n = nat (retries (retryPolicy ?s') - (a + 1))"
    using lt Suc.prems by (simp_all add: rp)
  from Suc.IH [OF this] obtain s_last e' where
    1: "fst (attempt_call fetch s_last ''/api/v1/evaluate/flag'' ''Failed to evaluate flag'' r t) = Inl e'"
    and 2: "steps (trace s_last) = steps (trace ?s') @ concat (replicate n [Call, Wait (delay (retryPolicy ?s'))])"
    and 3: "evaluateFlag_loop fetch ?s' r t k (a + 1) =
           (Inl e',
            log (snd (attempt_call fetch s_last ''/api/v1/evaluate/flag'' ''Failed to evaluate flag'' r t))
              (''Attempt '' @ string_of_int (retries (retryPolicy ?s')) @ '' failed.''))"
    by blast
  have "steps (trace s_last) = steps (trace s) @ concat (replicate (Suc n) [Call, Wait (delay (retryPolicy s))])"
    using 2 by (simp add: rp)
  with 1 3 flag_loop_retry [OF lt e] rp show ?case by auto
qed

text \<open>The two entry points, once the request is valid and its key is not in the cache.\<close>

lemma evaluateFlags_miss:
  assumes "environment r = Some env" "env \<noteq> []" "user r = Some u" "user_id u = Some uid" "uid \<noteq> []"
      and "flagsCache s (env @ '':'' @ uid) = None"
  shows "evaluateFlags fetch s r t =
           evaluateFlags_loop fetch (log s ''Evaluating flags...'') r
             (case t of None \<Rightarrow> defaultTimeout s | Some x \<Rightarrow> x) (env @ '':'' @ uid) 1"
  using assms valid_request_key [OF assms(1-5)]
  by (simp add: evaluateFlags_def Let_def)

lemma evaluateFlag_miss:
  assumes "environment r = Some env" "env \<noteq> []" "user r = Some u" "user_id u = Some uid" "uid \<noteq> []"
      and "flag r \<noteq> None" "flagCache s (env @ '':'' @ uid) = None"
  shows "evaluateFlag fetch s r t =
           evaluateFlag_loop fetch (log s ''Evaluating flag...'') r
             (case t of None \<Rightarrow> defaultTimeout s | Some x \<Rightarrow> x) (env @ '':'' @ uid) 1"
  using assms valid_request_key [OF assms(1-5)]
  by (simp add: evaluateFlag_def Let_def)

lemma evaluateFlags_hit:
  assumes "environment r = Some env" "env \<noteq> []" "user r = Some u" "user_id u = Some uid" "uid \<noteq> []"
      and "flagsCache s (env @ '':'' @ uid) = Some v"
  shows "evaluateFlags fetch s r t = (Inr (Some v), log s ''Evaluating flags...'')"
  using assms valid_request_key [OF assms(1-5)]
  by (simp add: evaluateFlags_def Let_def)

lemma evaluateFlag_hit:
  assumes "environment r = Some env" "env \<noteq> []" "user r = Some u" "user_id u = Some uid" "uid \<noteq> []"
      and "flag r \<noteq> None" "flagCache s (env @ '':'' @ uid) = Some v"
  shows "evaluateFlag fetch s r t = (Inr (Some v), log s ''Evaluating flag...'')"
  using assms valid_request_key [OF assms(1-5)]
  by (simp add: evaluateFlag_def Let_def)

text \<open>The trace of a loop run extends the trace it starts with, by a call when an attempt is left.\<close>

lemma flags_loop_steps:
  "\<exists>rest. steps (trace (snd (evaluateFlags_loop fetch s r t k a))) = steps (trace s) @ rest"
proof (induction "nat (retries (retryPolicy s) + 1 - a)" arbitrary: s a)
  case 0
  then have "\<not> a \<le> retries (retryPolicy s)" by simp
  then show ?case by (simp add: flags_loop_done)
next
  case (Suc n)
  let ?r = "attempt_call fetch s ''/api/v1/evaluate/flags'' ''Failed to evaluate flags'' r t"
  show ?case
  proof (cases rule: attempt_cases [where a = a and n = "retries (retryPolicy s)" and x = "fst ?r"])
    case over
    then show ?thesis by (simp add: flags_loop_done)
  next
    case (success v)
    then show ?thesis by (simp add: flags_loop_success)
  next
    case (final e)
    then show ?thesis by (simp add: flags_loop_last)
  next
    case (retry e)
    let ?s' = "sleep (log (snd ?r) (''Attempt '' @ string_of_int a @ '' failed.''))"
    have "n = nat (retries (retryPolicy ?s') + 1 - (a + 1))" using Suc.hyps(2) by simp
    from Suc.hyps(1) [OF this] obtain rest where
      "steps (trace (snd (evaluateFlags_loop fetch ?s' r t k (a + 1)))) = steps (trace ?s') @ rest"
      by blast
    then show ?thesis by (simp add: flags_loop_retry [OF retry])
  qed
qed

lemma flag_loop_steps:
  "\<exists>rest. steps (trace (snd (evaluateFlag_loop fetch s r t k a))) = steps (trace s) @ rest"
proof (induction "nat (retries (retryPolicy s) + 1 - a)" arbitrary: s a)
  case 0
  then have "\<not> a \<le> retries (retryPolicy s)" by simp
  then show ?case by (simp add: flag_loop_done)
next
  case (Suc n)
  let ?r = "attempt_call fetch s ''/api/v1/evaluate/flag'' ''Failed to evaluate flag'' r t"
  show ?case
  proof (cases rule: attempt_cases [where a = a and n = "retries (retryPolicy s)" and x = "fst ?r"])
    case over
    then show ?thesis by (simp add: flag_loop_done)
  next
    case (success v)
    then show ?thesis by (simp add: flag_loop_success)
  next
    case (final e)
    then show ?thesis by (simp add: flag_loop_last)
  next
    case (retry e)
    let ?s' = "sleep (log (snd ?r) (''Attempt '' @ string_of_int a @ '' failed.''))"
    have "n = nat (retries (retryPolicy ?s') + 1 - (a + 1))" using Suc.hyps(2) by simp
    from Suc.hyps(1) [OF this] obtain rest where
      "steps (trace (snd (evaluateFlag_loop fetch ?s' r t k (a + 1)))) = steps (trace ?s') @ rest"
      by blast
    then show ?thesis by (simp add: flag_loop_retry [OF retry])
  qed
qed

lemma flags_loop_first_call:
  assumes "a \<le> retries (retryPolicy s)"
  shows "\<exists>rest. steps (trace (snd (evaluateFlags_loop fetch s r t k a))) = steps (trace s) @ Call # rest"
proof -
  let ?r = "attempt_call fetch s ''/api/v1/evaluate/flags'' ''Failed to evaluate flags'' r t"
  show ?thesis
  proof (cases rule: attempt_cases [where a = a and n = "retries (retryPolicy s)" and x = "fst ?r"])
    case over
    with assms show ?thesis by simp
  next
    case (success v)
    then show ?thesis by (simp add: flags_loop_success)
  next
    case (final e)
    then show ?thesis by (simp add: flags_loop_last)
  next
    case (retry e)
    let ?s' = "sleep (log (snd ?r) (''Attempt '' @ string_of_int a @ '' failed.''))"
    from flags_loop_steps [of fetch ?s' r t k "a + 1"] obtain rest where
      "steps (trace (snd (evaluateFlags_loop fetch ?s' r t k (a + 1)))) = steps (trace ?s') @ rest"
      by blast
    then show ?thesis by (simp add: flags_loop_retry [OF retry])
  qed
qed

lemma flag_loop_first_call:
  assumes "a \<le> retries (retryPolicy s)"
  shows "\<exists>rest. steps (trace (snd (evaluateFlag_loop fetch s r t k a))) = steps (trace s) @ Call # rest"
proof -
  let ?r = "attempt_call fetch s ''/api/v1/evaluate/flag'' ''Failed to evaluate flag'' r t"
  show ?thesis
  proof (cases rule: attempt_cases [where a = a and n = "retries (retryPolicy s)" and x = "fst ?r"])
    case over
    with assms show ?thesis by simp
  next
    case (success v)
    then show ?thesis by (simp add: flag_loop_success)
  next
    case (final e)
    then show ?thesis by (simp add: flag_loop_last)
  next
    case (retry e)
    let ?s' = "sleep (log (snd ?r) (''Attempt '' @ string_of_int a @ '' failed.''))"
    from flag_loop_steps [of fetch ?s' r t k "a + 1"] obtain rest where
      "steps (trace (snd (evaluateFlag_loop fetch ?s' r t k (a + 1)))) = steps (trace ?s') @ rest"
      by blast
    then show ?thesis by (simp add: flag_loop_retry [OF retry])
  qed
qed

text \<open>
  An attempt that fails with \<open>e\<close>: before the last allowed attempt the loop logs, waits
  and goes on with the next attempt, which calls the transport; at the last allowed
  attempt it stops with the error.
\<close>

lemma flags_loop_failed_attempt:
  assumes "fst (attempt_call fetch s ''/api/v1/evaluate/flags'' ''Failed to evaluate flags'' r t) = Inl e"
  shows "(a < retries (retryPolicy s) \<longrightarrow>
           evaluateFlags_loop fetch s r t k a =
             evaluateFlags_loop fetch
               (sleep (log (snd (attempt_call fetch s ''/api/v1/evaluate/flags'' ''Failed to evaluate flags'' r t))
                  (''Attempt '' @ string_of_int a @ '' failed.''))) r t k (a + 1)
         \<and> (\<exists>rest. steps (trace (snd (evaluateFlags_loop fetch s r t k a))) =
               steps (trace s) @ [Call, Wait (delay (retryPolicy s)), Call] @ rest))
       \<and> (a = retries (retryPolicy s) \<longrightarrow>
           evaluateFlags_loop fetch s r t k a =
             (Inl (Error (message e)),
              log (snd (attempt_call fetch s ''/api/v1/evaluate/flags'' ''Failed to evaluate flags'' r t))
                (''Attempt '' @ string_of_int a @ '' failed.''))
         \<and> steps (trace (snd (evaluateFlags_loop fetch s r t k a))) = steps (trace s) @ [Call])"
proof (intro conjI impI)
  assume lt: "a < retries (retryPolicy s)"
  let ?s' = "sleep (log (snd (attempt_call fetch s ''/api/v1/evaluate/flags'' ''Failed to evaluate flags'' r t))
                  (''Attempt '' @ string_of_int a @ '' failed.''))"
  show eq: "evaluateFlags_loop fetch s r t k a = evaluateFlags_loop fetch ?s' r t k (a + 1)"
    by (rule flags_loop_retry [OF lt assms])
  have "a + 1 \<le> retries (retryPolicy ?s')" using lt by simp
  from flags_loop_first_call [OF this, of fetch r t k] obtain rest where
    "steps (trace (snd (evaluateFlags_loop fetch ?s' r t k (a + 1)))) = steps (trace ?s') @ Call # rest"
    by blast
  then have "steps (trace (snd (evaluateFlags_loop fetch s r t k a))) =
               steps (trace s) @ [Call, Wait (delay (retryPolicy s)), Call] @ rest"
    by (simp add: eq)
  then show "\<exists>rest. steps (trace (snd (evaluateFlags_loop fetch s r t k a))) =
               steps (trace s) @ [Call, Wait (delay (retryPolicy s)), Call] @ rest" ..
next
  assume a: "a = retries (retryPolicy s)"
  show eq: "evaluateFlags_loop fetch s r t k a =
             (Inl (Error (message e)),
              log (snd (attempt_call fetch s ''/api/v1/evaluate/flags'' ''Failed to evaluate flags'' r t))
                (''Attempt '' @ string_of_int a @ '' failed.''))"
    by (rule flags_loop_last [OF a assms])
  show "steps (trace (snd (evaluateFlags_loop fetch s r t k a))) = steps (trace s) @ [Call]"
    by (simp add: eq)
qed

lemma flag_loop_failed_attempt:
  assumes "fst (attempt_call fetch s ''/api/v1/evaluate/flag'' ''Failed to evaluate flag'' r t) = Inl e"
  shows "(a < retries (retryPolicy s) \<longrightarrow>
           evaluateFlag_loop fetch s r t k a =
             evaluateFlag_loop fetch
               (sleep (log (snd (attempt_call fetch s ''/api/v1/evaluate/flag'' ''Failed to evaluate flag'' r t))
                  (''Attempt '' @ string_of_int a @ '' failed.''))) r t k (a + 1)
         \<and> (\<exists>rest. steps (trace (snd (evaluateFlag_loop fetch s r t k a))) =
               steps (trace s) @ [Call, Wait (delay (retryPolicy s)), Call] @ rest))
       \<and> (a = retries (retryPolicy s) \<longrightarrow>
           evaluateFlag_loop fetch s r t k a =
             (Inl e,
              log (snd (attempt_call fetch s ''/api/v1/evaluate/flag'' ''Failed to evaluate flag'' r t))
                (''Attempt '' @ string_of_int a @ '' failed.''))
         \<and> steps (trace (snd (evaluateFlag_loop fetch s r t k a))) = steps (trace s) @ [Call])"
proof (intro conjI impI)
  assume lt: "a < retries (retryPolicy s)"
  let ?s' = "sleep (log (snd (attempt_call fetch s ''/api/v1/evaluate/flag'' ''Failed to evaluate flag'' r t))
                  (''Attempt '' @ string_of_int a @ '' failed.''))"
  show eq: "evaluateFlag_loop fetch s r t k a = evaluateFlag_loop fetch ?s' r t k (a + 1)"
    by (rule flag_loop_retry [OF lt assms])
  have "a + 1 \<le> retries (retryPolicy ?s')" using lt by simp
  from flag_loop_first_call [OF this, of fetch r t k] obtain rest where
    "steps (trace (snd (evaluateFlag_loop fetch ?s' r t k (a + 1)))) = steps (trace ?s') @ Call # rest"
    by blast
  then have "steps (trace (snd (evaluateFlag_loop fetch s r t k a))) =
               steps (trace s) @ [Call, Wait (delay (retryPolicy s)), Call] @ rest"
    by (simp add: eq)
  then show "\<exists>rest. steps (trace (snd (evaluateFlag_loop fetch s r t k a))) =
               steps (trace s) @ [Call, Wait (delay (retryPolicy s)), Call] @ rest" ..
next
  assume a: "a = retries (retryPolicy s)"
  show eq: "evaluateFlag_loop fetch s r t k a =
             (Inl e,
              log (snd (attempt_call fetch s ''/api/v1/evaluate/flag'' ''Failed to evaluate flag'' r t))
                (''Attempt '' @ string_of_int a @ '' failed.''))"
    by (rule flag_loop_last [OF a assms])
  show "steps (trace (snd (evaluateFlag_loop fetch s r t k a))) = steps (trace s) @ [Call]"
    by (simp add: eq)
qed


section \<open>Claims\<close>

lemmas example_defs =
  ex_client_def ex_request_def ex_flag_request_def ex_flags_def ex_flag_def ok_response_def
  failing_transport_def slow_transport_def malformed_response_def flaky_transport_def
  malformed_transport_def answering_transport_def null_body_response_def

lemmas run_defs =
  evaluateFlags_def evaluateFlag_def validateRequest_def falsy_def getCacheKey_def template_def
  log_def evaluateFlags_loop.simps evaluateFlag_loop.simps attempt_call_def Let_def sleep_def
  setCache_def handleErrorResponse_def getHeaders_def Error_def TypeError_def

text \<open>
  C1. The claim: in every attempt of \<open>evaluateFlag\<close> or \<open>evaluateFlags\<close> whose timer
  of \<open>timeoutMs\<close> fires before the transport call completes, the call in flight is
  cancelled and the attempt counts as a failure. The code sets the timer on an
  AbortController whose signal it never hands to the transport. Here the timeout is 10 ms
  and the transport, which would honour a signal, answers after 100 ms: the timer fires
  (\<open>EAbort\<close>), the options carry no signal, the transport is called once and the call
  returns the flags of the late answer.
\<close>

theorem C1_abort_timer_does_not_cancel:
  "fst (evaluateFlags (slow_transport ex_flags) ex_client ex_request (Some 10)) = Inr (Some ex_flags)
   \<and> trace (snd (evaluateFlags (slow_transport ex_flags) ex_client ex_request (Some 10))) =
       [EFetch ''https://api.example.com/api/v1/evaluate/flags''
          \<lparr>http_method = ''POST'',
           headers = [(''Content-Type'', ''application/json''),
                      (''x-api-key'', ''0da8f357ce7a2b01effe5992f295a592'')],
           body = ex_request, signal = None\<rparr>,
        EAbort]
   \<and> fst (evaluateFlag (slow_transport ex_flag) ex_client ex_flag_request (Some 10)) = Inr (Some ex_flag)
   \<and> trace (snd (evaluateFlag (slow_transport ex_flag) ex_client ex_flag_request (Some 10))) =
       [EFetch ''https://api.example.com/api/v1/evaluate/flag''
          \<lparr>http_method = ''POST'',
           headers = [(''Content-Type'', ''application/json''),
                      (''x-api-key'', ''0da8f357ce7a2b01effe5992f295a592'')],
           body = ex_flag_request, signal = None\<rparr>,
        EAbort]"
  by (simp add: example_defs run_defs)

text \<open>
  C2. The claim: a success-status response whose body fails to parse as JSON is surfaced
  to the caller at once and never retried. It fails: with the default policy of three
  attempts, a first answer with a malformed body is followed by a second transport call,
  and the call returns the flags of the second answer, with no error at all.
\<close>

theorem C2_counterexample:
  "ok malformed_response \<and> isl (json_body malformed_response)
   \<and> fst (evaluateFlags (flaky_transport ex_flags) ex_client ex_request None) = Inr (Some ex_flags)
   \<and> network_calls (snd (evaluateFlags (flaky_transport ex_flags) ex_client ex_request None)) = 2
   \<and> fst (evaluateFlag (flaky_transport ex_flag) ex_client ex_flag_request None) = Inr (Some ex_flag)
   \<and> network_calls (snd (evaluateFlag (flaky_transport ex_flag) ex_client ex_flag_request None)) = 2"
  by (simp add: example_defs run_defs network_calls_def)

text \<open>
  C2, amended. A success-status response whose body fails to parse is an attempt failure
  like any other. When it is the answer of attempt \<open>a\<close> and the policy allows a further
  attempt (\<open>a < retries\<close>), the loop logs the failure, waits \<open>delay\<close> and goes on with
  attempt \<open>a + 1\<close>, which calls the transport: the trace continues with a call, a wait of
  \<open>delay\<close> and a call. When it is the answer of the last allowed attempt
  (\<open>a = retries\<close>), the call ends after that transport call with the parse error
  (\<open>evaluateFlag\<close> rethrows it, \<open>evaluateFlags\<close> raises a new error with its message).
  For a valid request on a cache miss the entry points run the loop from attempt 1, so the
  same holds of the first answer.
\<close>

theorem C2_malformed_body_is_retried:
  fixes fetch :: "'w transport" and s :: "'w client"
  assumes "\<And>url init. settled (fst (fetch (net s) url init)) = Inr resp"
      and "ok resp" "json_body resp = Inl e"
  shows "(a < retries (retryPolicy s) \<longrightarrow>
           evaluateFlags_loop fetch s r tm k a =
             evaluateFlags_loop fetch
               (sleep (log (snd (attempt_call fetch s ''/api/v1/evaluate/flags'' ''Failed to evaluate flags'' r tm))
                  (''Attempt '' @ string_of_int a @ '' failed.''))) r tm k (a + 1)
         \<and> (\<exists>rest. steps (trace (snd (evaluateFlags_loop fetch s r tm k a))) =
               steps (trace s) @ [Call, Wait (delay (retryPolicy s)), Call] @ rest)
         \<and> evaluateFlag_loop fetch s r tm k a =
             evaluateFlag_loop fetch
               (sleep (log (snd (attempt_call fetch s ''/api/v1/evaluate/flag'' ''Failed to evaluate flag'' r tm))
                  (''Attempt '' @ string_of_int a @ '' failed.''))) r tm k (a + 1)
         \<and> (\<exists>rest. steps (trace (snd (evaluateFlag_loop fetch s r tm k a))) =
               steps (trace s) @ [Call, Wait (delay (retryPolicy s)), Call] @ rest))
       \<and> (a = retries (retryPolicy s) \<longrightarrow>
           fst (evaluateFlags_loop fetch s r tm k a) = Inl (Error (message e))
         \<and> steps (trace (snd (evaluateFlags_loop fetch s r tm k a))) = steps (trace s) @ [Call]
         \<and> fst (evaluateFlag_loop fetch s r tm k a) = Inl e
         \<and> steps (trace (snd (evaluateFlag_loop fetch s r tm k a))) = steps (trace s) @ [Call])
       \<and> (environment r = Some env \<and> env \<noteq> [] \<and> user r = Some u \<and> user_id u = Some uid \<and> uid \<noteq> []
            \<and> flagsCache s (env @ '':'' @ uid) = None \<longrightarrow>
           evaluateFlags fetch s r t =
             evaluateFlags_loop fetch (log s ''Evaluating flags...'') r
               (case t of None \<Rightarrow> defaultTimeout s | Some x \<Rightarrow> x) (env @ '':'' @ uid) 1
         \<and> (1 < retries (retryPolicy s) \<longrightarrow>
              (\<exists>rest. steps (trace (snd (evaluateFlags fetch s r t))) =
                 steps (trace s) @ [Call, Wait (delay (retryPolicy s)), Call] @ rest))
         \<and> (1 = retries (retryPolicy s) \<longrightarrow>
              fst (evaluateFlags fetch s r t) = Inl (Error (message e))
            \<and> steps (trace (snd (evaluateFlags fetch s r t))) = steps (trace s) @ [Call]))
       \<and> (environment r = Some env \<and> env \<noteq> [] \<and> user r = Some u \<and> user_id u = Some uid \<and> uid \<noteq> []
            \<and> flag r \<noteq> None \<and> flagCache s (env @ '':'' @ uid) = None \<longrightarrow>
           evaluateFlag fetch s r t =
             evaluateFlag_loop fetch (log s ''Evaluating flag...'') r
               (case t of None \<Rightarrow> defaultTimeout s | Some x \<Rightarrow> x) (env @ '':'' @ uid) 1
         \<and> (1 < retries (retryPolicy s) \<longrightarrow>
              (\<exists>rest. steps (trace (snd (evaluateFlag fetch s r t))) =
                 steps (trace s) @ [Call, Wait (delay (retryPolicy s)), Call] @ rest))
         \<and> (1 = retries (retryPolicy s) \<longrightarrow>
              fst (evaluateFlag fetch s r t) = Inl e
            \<and> steps (trace (snd (evaluateFlag fetch s r t))) = steps (trace s) @ [Call]))"
proof -
  have multi: "fst (attempt_call fetch s ''/api/v1/evaluate/flags'' ''Failed to evaluate flags'' r tm) = Inl e"
    using attempt_call_malformed [of fetch s resp e] assms by blast
  have single: "fst (attempt_call fetch s ''/api/v1/evaluate/flag'' ''Failed to evaluate flag'' r tm) = Inl e"
    using attempt_call_malformed [of fetch s resp e] assms by blast
  note loopM = flags_loop_failed_attempt [OF multi, of a k]
  note loopS = flag_loop_failed_attempt [OF single, of a k]
  have part1: "a < retries (retryPolicy s) \<longrightarrow>
           evaluateFlags_loop fetch s r tm k a =
             evaluateFlags_loop fetch
               (sleep (log (snd (attempt_call fetch s ''/api/v1/evaluate/flags'' ''Failed to evaluate flags'' r tm))
                  (''Attempt '' @ string_of_int a @ '' failed.''))) r tm k (a + 1)
         \<and> (\<exists>rest. steps (trace (snd (evaluateFlags_loop fetch s r tm k a))) =
               steps (trace s) @ [Call, Wait (delay (retryPolicy s)), Call] @ rest)
         \<and> evaluateFlag_loop fetch s r tm k a =
             evaluateFlag_loop fetch
               (sleep (log (snd (attempt_call fetch s ''/api/v1/evaluate/flag'' ''Failed to evaluate flag'' r tm))
                  (''Attempt '' @ string_of_int a @ '' failed.''))) r tm k (a + 1)
         \<and> (\<exists>rest. steps (trace (snd (evaluateFlag_loop fetch s r tm k a))) =
               steps (trace s) @ [Call, Wait (delay (retryPolicy s)), Call] @ rest)"
    using loopM loopS by blast
  have part2: "a = retries (retryPolicy s) \<longrightarrow>
           fst (evaluateFlags_loop fetch s r tm k a) = Inl (Error (message e))
         \<and> steps (trace (snd (evaluateFlags_loop fetch s r tm k a))) = steps (trace s) @ [Call]
         \<and> fst (evaluateFlag_loop fetch s r tm k a) = Inl e
         \<and> steps (trace (snd (evaluateFlag_loop fetch s r tm k a))) = steps (trace s) @ [Call]"
    using loopM loopS by simp
  let ?t = "case t of None \<Rightarrow> defaultTimeout s | Some x \<Rightarrow> x"
  let ?k = "env @ '':'' @ uid"
  have part3: "environment r = Some env \<and> env \<noteq> [] \<and> user r = Some u \<and> user_id u = Some uid \<and> uid \<noteq> []
            \<and> flagsCache s ?k = None \<longrightarrow>
           evaluateFlags fetch s r t = evaluateFlags_loop fetch (log s ''Evaluating flags...'') r ?t ?k 1
         \<and> (1 < retries (retryPolicy s) \<longrightarrow>
              (\<exists>rest. steps (trace (snd (evaluateFlags fetch s r t))) =
                 steps (trace s) @ [Call, Wait (delay (retryPolicy s)), Call] @ rest))
         \<and> (1 = retries (retryPolicy s) \<longrightarrow>
              fst (evaluateFlags fetch s r t) = Inl (Error (message e))
            \<and> steps (trace (snd (evaluateFlags fetch s r t))) = steps (trace s) @ [Call])"
  proof (intro impI)
    assume h: "environment r = Some env \<and> env \<noteq> [] \<and> user r = Some u \<and> user_id u = Some uid \<and> uid \<noteq> []
            \<and> flagsCache s ?k = None"
    let ?s0 = "log s ''Evaluating flags...''"
    from h have v: "environment r = Some env" "env \<noteq> []" "user r = Some u" "user_id u = Some uid"
      "uid \<noteq> []" "flagsCache s ?k = None" by simp_all
    have ev: "evaluateFlags fetch s r t = evaluateFlags_loop fetch ?s0 r ?t ?k 1"
      by (rule evaluateFlags_miss [OF v])
    have resp0: "\<And>url init. settled (fst (fetch (net ?s0) url init)) = Inr resp"
      using assms(1) by simp
    have fail: "fst (attempt_call fetch ?s0 ''/api/v1/evaluate/flags'' ''Failed to evaluate flags'' r ?t) = Inl e"
      using attempt_call_malformed [of fetch ?s0 resp e] resp0 assms(2,3) by blast
    note L = flags_loop_failed_attempt [OF fail, of 1 ?k]
    have A: "1 < retries (retryPolicy s) \<Longrightarrow>
               \<exists>rest. steps (trace (snd (evaluateFlags_loop fetch ?s0 r ?t ?k 1))) =
                 steps (trace s) @ [Call, Wait (delay (retryPolicy s)), Call] @ rest"
    proof -
      assume "1 < retries (retryPolicy s)"
      then have "1 < retries (retryPolicy ?s0)" by simp
      with L obtain rest where
        "steps (trace (snd (evaluateFlags_loop fetch ?s0 r ?t ?k 1))) =
           steps (trace ?s0) @ [Call, Wait (delay (retryPolicy ?s0)), Call] @ rest"
        by blast
      then have "steps (trace (snd (evaluateFlags_loop fetch ?s0 r ?t ?k 1))) =
           steps (trace s) @ [Call, Wait (delay (retryPolicy s)), Call] @ rest"
        by simp
      then show ?thesis ..
    qed
    have B: "1 = retries (retryPolicy s) \<Longrightarrow>
               fst (evaluateFlags_loop fetch ?s0 r ?t ?k 1) = Inl (Error (message e))
             \<and> steps (trace (snd (evaluateFlags_loop fetch ?s0 r ?t ?k 1))) = steps (trace s) @ [Call]"
    proof -
      assume "1 = retries (retryPolicy s)"
      then have "1 = retries (retryPolicy ?s0)" by simp
      with L have "fst (evaluateFlags_loop fetch ?s0 r ?t ?k 1) = Inl (Error (message e))"
        and "steps (trace (snd (evaluateFlags_loop fetch ?s0 r ?t ?k 1))) = steps (trace ?s0) @ [Call]"
        by simp_all
      then show ?thesis by simp
    qed
    from A B
    show "evaluateFlags fetch s r t = evaluateFlags_loop fetch ?s0 r ?t ?k 1
         \<and> (1 < retries (retryPolicy s) \<longrightarrow>
              (\<exists>rest. steps (trace (snd (evaluateFlags fetch s r t))) =
                 steps (trace s) @ [Call, Wait (delay (retryPolicy s)), Call] @ rest))
         \<and> (1 = retries (retryPolicy s) \<longrightarrow>
              fst (evaluateFlags fetch s r t) = Inl (Error (message e))
            \<and> steps (trace (snd (evaluateFlags fetch s r t))) = steps (trace s) @ [Call])"
      unfolding ev by blast
  qed
  have part4: "environment r = Some env \<and> env \<noteq> [] \<and> user r = Some u \<and> user_id u = Some uid \<and> uid \<noteq> []
            \<and> flag r \<noteq> None \<and> flagCache s ?k = None \<longrightarrow>
           evaluateFlag fetch s r t = evaluateFlag_loop fetch (log s ''Evaluating flag...'') r ?t ?k 1
         \<and> (1 < retries (retryPolicy s) \<longrightarrow>
              (\<exists>rest. steps (trace (snd (evaluateFlag fetch s r t))) =
                 steps (trace s) @ [Call, Wait (delay (retryPolicy s)), Call] @ rest))
         \<and> (1 = retries (retryPolicy s) \<longrightarrow>
              fst (evaluateFlag fetch s r t) = Inl e
            \<and> steps (trace (snd (evaluateFlag fetch s r t))) = steps (trace s) @ [Call])"
  proof (intro impI)
    assume h: "environment r = Some env \<and> env \<noteq> [] \<and> user r = Some u \<and> user_id u = Some uid \<and> uid \<noteq> []
            \<and> flag r \<noteq> None \<and> flagCache s ?k = None"
    let ?s0 = "log s ''Evaluating flag...''"
    from h have v: "environment r = Some env" "env \<noteq> []" "user r = Some u" "user_id u = Some uid"
      "uid \<noteq> []" "flag r \<noteq> None" "flagCache s ?k = None" by simp_all
    have ev: "evaluateFlag fetch s r t = evaluateFlag_loop fetch ?s0 r ?t ?k 1"
      by (rule evaluateFlag_miss [OF v])
    have resp0: "\<And>url init. settled (fst (fetch (net ?s0) url init)) = Inr resp"
      using assms(1) by simp
    have fail: "fst (attempt_call fetch ?s0 ''/api/v1/evaluate/flag'' ''Failed to evaluate flag'' r ?t) = Inl e"
      using attempt_call_malformed [of fetch ?s0 resp e] resp0 assms(2,3) by blast
    note L = flag_loop_failed_attempt [OF fail, of 1 ?k]
    have A: "1 < retries (retryPolicy s) \<Longrightarrow>
               \<exists>rest. steps (trace (snd (evaluateFlag_loop fetch ?s0 r ?t ?k 1))) =
                 steps (trace s) @ [Call, Wait (delay (retryPolicy s)), Call] @ rest"
    proof -
      assume "1 < retries (retryPolicy s)"
      then have "1 < retries (retryPolicy ?s0)" by simp
      with L obtain rest where
        "steps (trace (snd (evaluateFlag_loop fetch ?s0 r ?t ?k 1))) =
           steps (trace ?s0) @ [Call, Wait (delay (retryPolicy ?s0)), Call] @ rest"
        by blast
      then have "steps (trace (snd (evaluateFlag_loop fetch ?s0 r ?t ?k 1))) =
           steps (trace s) @ [Call, Wait (delay (retryPolicy s)), Call] @ rest"
        by simp
      then show ?thesis ..
    qed
    have B: "1 = retries (retryPolicy s) \<Longrightarrow>
               fst (evaluateFlag_loop fetch ?s0 r ?t ?k 1) = Inl e
             \<and> steps (trace (snd (evaluateFlag_loop fetch ?s0 r ?t ?k 1))) = steps (trace s) @ [Call]"
    proof -
      assume "1 = retries (retryPolicy s)"
      then have "1 = retries (retryPolicy ?s0)" by simp
      with L have "fst (evaluateFlag_loop fetch ?s0 r ?t ?k 1) = Inl e"
        and "steps (trace (snd (evaluateFlag_loop fetch ?s0 r ?t ?k 1))) = steps (trace ?s0) @ [Call]"
        by simp_all
      then show ?thesis by simp
    qed
    from A B
    show "evaluateFlag fetch s r t = evaluateFlag_loop fetch ?s0 r ?t ?k 1
         \<and> (1 < retries (retryPolicy s) \<longrightarrow>
              (\<exists>rest. steps (trace (snd (evaluateFlag fetch s r t))) =
                 steps (trace s) @ [Call, Wait (delay (retryPolicy s)), Call] @ rest))
         \<and> (1 = retries (retryPolicy s) \<longrightarrow>
              fst (evaluateFlag fetch s r t) = Inl e
            \<and> steps (trace (snd (evaluateFlag fetch s r t))) = steps (trace s) @ [Call])"
      unfolding ev by blast
  qed
  from part1 part2 part3 part4 show ?thesis by (intro conjI)
qed

theorem C2_witness:
  "ok malformed_response
   \<and> json_body malformed_response = Inl (JsError ''SyntaxError'' ''Unexpected token < in JSON'')
   \<and> flagsCache ex_client ''production:user1'' = None
   \<and> 1 < retries (retryPolicy ex_client)
   \<and> (\<exists>rest. steps (trace (snd (evaluateFlags malformed_transport ex_client ex_request None))) =
         [Call, Wait 1000, Call] @ rest)
   \<and> fst (evaluateFlags_loop malformed_transport ex_client ex_request 5000 ''production:user1'' 3) =
       Inl (Error ''Unexpected token < in JSON'')
   \<and> steps (trace (snd (evaluateFlags_loop malformed_transport ex_client ex_request 5000
         ''production:user1'' 3))) = [Call]"
proof -
  have h: "\<And>url init. settled (fst (malformed_transport (net ex_client) url init)) = Inr malformed_response"
    by (simp add: malformed_transport_def)
  have b: "ok malformed_response"
    "json_body malformed_response = Inl (JsError ''SyntaxError'' ''Unexpected token < in JSON'')"
    by (simp_all add: malformed_response_def)
  have v: "environment ex_request = Some ''production'' \<and> ''production'' \<noteq> []
     \<and> user ex_request = Some \<lparr>user_id = Some ''user1'', email = Some ''user1@example.com''\<rparr>
     \<and> user_id \<lparr>user_id = Some ''user1'', email = Some ''user1@example.com''\<rparr> = Some ''user1''
     \<and> ''user1'' \<noteq> [] \<and> flagsCache ex_client (''production'' @ '':'' @ ''user1'') = None"
    by (simp add: ex_request_def ex_client_def)
  have p: "1 < retries (retryPolicy ex_client)" "3 = retries (retryPolicy ex_client)"
    "delay (retryPolicy ex_client) = 1000" "steps (trace ex_client) = []"
    by (simp_all add: ex_client_def)
  note inst = C2_malformed_body_is_retried [where fetch = malformed_transport and s = ex_client
      and r = ex_request and t = None and tm = 5000 and k = "''production:user1''" and a = 3
      and env = "''production''" and uid = "''user1''"
      and u = "\<lparr>user_id = Some ''user1'', email = Some ''user1@example.com''\<rparr>", OF h b]
  from inst v p(1) have "\<exists>rest. steps (trace (snd (evaluateFlags malformed_transport ex_client ex_request None))) =
         steps (trace ex_client) @ [Call, Wait (delay (retryPolicy ex_client)), Call] @ rest"
    by blast
  moreover from inst p(2) have
    "fst (evaluateFlags_loop malformed_transport ex_client ex_request 5000 ''production:user1'' 3) =
       Inl (Error (message (JsError ''SyntaxError'' ''Unexpected token < in JSON'')))"
    "steps (trace (snd (evaluateFlags_loop malformed_transport ex_client ex_request 5000
         ''production:user1'' 3))) = steps (trace ex_client) @ [Call]"
    by blast+
  ultimately show ?thesis using b v p by simp
qed

text \<open>
  C3. The claim: \<open>setApiKey\<close> raises a configuration error for every string that is not a
  32-character hexadecimal string, exactly as the constructor does. The setter does not:
  it refuses the empty string only, with another message, and stores any other string.
  Here the key \<open>invalid-key\<close> is not a 32-character hexadecimal string and the
  constructor refuses it, yet \<open>setApiKey\<close> makes it the key of the client.
\<close>

theorem C3_setApiKey_accepts_malformed_key:
  "\<not> validateApiKey ''invalid-key''
   \<and> constructor \<lparr>cfg_key = Some ''invalid-key'', cfg_baseUrl = Some ''https://api.example.com'',
        cfg_customHeaders = None, cfg_debug = None, cfg_defaultTimeout = None\<rparr> (0::nat) =
       Inl (Error ''Invalid API key. The key must be a 32-character hexadecimal string.'')
   \<and> setApiKey ex_client ''invalid-key'' = Inr (ex_client\<lparr>key := ''invalid-key''\<rparr>)
   \<and> setApiKey ex_client [] = Inl (Error ''API key is required'')"
  by (simp add: validateApiKey_def constructor_def setApiKey_def log_def ex_client_def)

text \<open>The two entry points when every transport call fails, for \<open>retries = N \<ge> 1\<close>.\<close>

lemma evaluateFlags_all_fail:
  fixes fetch :: "'w transport" and s :: "'w client"
  assumes "1 \<le> N" "retries (retryPolicy s) = N" "delay (retryPolicy s) = d"
      and fails: "\<And>w url init. attempt_fails (fst (fetch w url init))"
      and valid: "environment r = Some env" "env \<noteq> []" "user r = Some u" "user_id u = Some uid" "uid \<noteq> []"
      and tm: "tm = (case t of None \<Rightarrow> defaultTimeout s | Some x \<Rightarrow> x)"
      and miss: "flagsCache s (env @ '':'' @ uid) = None"
  shows "steps (trace (snd (evaluateFlags fetch s r t))) =
             steps (trace s) @ concat (replicate (nat N - 1) [Call, Wait d]) @ [Call]
         \<and> network_calls (snd (evaluateFlags fetch s r t)) = network_calls s + nat N
         \<and> (\<exists>s_last e.
               steps (trace s_last) = steps (trace s) @ concat (replicate (nat N - 1) [Call, Wait d])
             \<and> fst (attempt_call fetch s_last ''/api/v1/evaluate/flags'' ''Failed to evaluate flags'' r tm) = Inl e
             \<and> evaluateFlags fetch s r t =
                 (Inl (Error (message e)),
                  log (snd (attempt_call fetch s_last ''/api/v1/evaluate/flags'' ''Failed to evaluate flags'' r tm))
                    (''Attempt '' @ string_of_int N @ '' failed.'')))"
proof -
  let ?k = "env @ '':'' @ uid"
  let ?s0 = "log s ''Evaluating flags...''"
  have ev: "evaluateFlags fetch s r t = evaluateFlags_loop fetch ?s0 r tm ?k 1"
    unfolding tm by (rule evaluateFlags_miss [OF valid miss])
  have le: "1 \<le> retries (retryPolicy ?s0)" using assms(1,2) by simp
  have n: "nat N - 1 = nat (retries (retryPolicy ?s0) - 1)" using assms(1,2) by simp
  from flags_loop_all_fail [where fetch = fetch and a = 1 and s = ?s0 and r = r and t = tm and k = ?k,
         OF fails le n]
  obtain s_last e where
    1: "fst (attempt_call fetch s_last ''/api/v1/evaluate/flags'' ''Failed to evaluate flags'' r tm) = Inl e"
    and 2: "steps (trace s_last) = steps (trace s) @ concat (replicate (nat N - 1) [Call, Wait d])"
    and 3: "evaluateFlags fetch s r t =
              (Inl (Error (message e)),
               log (snd (attempt_call fetch s_last ''/api/v1/evaluate/flags'' ''Failed to evaluate flags'' r tm))
                 (''Attempt '' @ string_of_int N @ '' failed.''))"
    using assms(2,3) by (auto simp: ev)
  have 4: "steps (trace (snd (evaluateFlags fetch s r t))) =
             steps (trace s) @ concat (replicate (nat N - 1) [Call, Wait d]) @ [Call]"
    by (simp add: 3 2)
  have "Suc (nat N - 1) = nat N" using assms(1) by simp
  then have 5: "network_calls (snd (evaluateFlags fetch s r t)) = network_calls s + nat N"
    by (simp add: network_calls_def 4 calls_replicate)
  from 1 2 3 4 5 show ?thesis by blast
qed

lemma evaluateFlag_all_fail:
  fixes fetch :: "'w transport" and s :: "'w client"
  assumes "1 \<le> N" "retries (retryPolicy s) = N" "delay (retryPolicy s) = d"
      and fails: "\<And>w url init. attempt_fails (fst (fetch w url init))"
      and valid: "environment r = Some env" "env \<noteq> []" "user r = Some u" "user_id u = Some uid" "uid \<noteq> []"
      and tm: "tm = (case t of None \<Rightarrow> defaultTimeout s | Some x \<Rightarrow> x)"
      and fl: "flag r \<noteq> None"
      and miss: "flagCache s (env @ '':'' @ uid) = None"
  shows "steps (trace (snd (evaluateFlag fetch s r t))) =
             steps (trace s) @ concat (replicate (nat N - 1) [Call, Wait d]) @ [Call]
         \<and> network_calls (snd (evaluateFlag fetch s r t)) = network_calls s + nat N
         \<and> (\<exists>s_last e.
               steps (trace s_last) = steps (trace s) @ concat (replicate (nat N - 1) [Call, Wait d])
             \<and> fst (attempt_call fetch s_last ''/api/v1/evaluate/flag'' ''Failed to evaluate flag'' r tm) = Inl e
             \<and> evaluateFlag fetch s r t =
                 (Inl e,
                  log (snd (attempt_call fetch s_last ''/api/v1/evaluate/flag'' ''Failed to evaluate flag'' r tm))
                    (''Attempt '' @ string_of_int N @ '' failed.'')))"
proof -
  let ?k = "env @ '':'' @ uid"
  let ?s0 = "log s ''Evaluating flag...''"
  have ev: "evaluateFlag fetch s r t = evaluateFlag_loop fetch ?s0 r tm ?k 1"
    unfolding tm by (rule evaluateFlag_miss [OF valid fl miss])
  have le: "1 \<le> retries (retryPolicy ?s0)" using assms(1,2) by simp
  have n: "nat N - 1 = nat (retries (retryPolicy ?s0) - 1)" using assms(1,2) by simp
  from flag_loop_all_fail [where fetch = fetch and a = 1 and s = ?s0 and r = r and t = tm and k = ?k,
         OF fails le n]
  obtain s_last e where
    1: "fst (attempt_call fetch s_last ''/api/v1/evaluate/flag'' ''Failed to evaluate flag'' r tm) = Inl e"
    and 2: "steps (trace s_last) = steps (trace s) @ concat (replicate (nat N - 1) [Call, Wait d])"
    and 3: "evaluateFlag fetch s r t =
              (Inl e,
               log (snd (attempt_call fetch s_last ''/api/v1/evaluate/flag'' ''Failed to evaluate flag'' r tm))
                 (''Attempt '' @ string_of_int N @ '' failed.''))"
    using assms(2,3) by (auto simp: ev)
  have 4: "steps (trace (snd (evaluateFlag fetch s r t))) =
             steps (trace s) @ concat (replicate (nat N - 1) [Call, Wait d]) @ [Call]"
    by (simp add: 3 2)
  have "Suc (nat N - 1) = nat N" using assms(1) by simp
  then have 5: "network_calls (snd (evaluateFlag fetch s r t)) = network_calls s + nat N"
    by (simp add: network_calls_def 4 calls_replicate)
  from 1 2 3 4 5 show ?thesis by blast
qed

text \<open>
  C4. With \<open>retries = N\<close>, \<open>N \<ge> 1\<close>, a transport that fails on every attempt, a valid
  request and a cache miss, \<open>evaluateFlags\<close> and \<open>evaluateFlag\<close> make exactly \<open>N\<close>
  transport calls with a wait of \<open>delay\<close> between two consecutive calls and none after
  the last; the call ends right after the \<open>N\<close>-th attempt, the one that starts in the
  state \<open>s_last\<close> reached after \<open>N - 1\<close> calls and waits, and raises the error of that
  attempt (\<open>evaluateFlag\<close> the error itself, \<open>evaluateFlags\<close> a new error with its
  message).
\<close>

theorem C4_always_failing_transport:
  fixes fetch :: "'w transport" and s :: "'w client"
  assumes "1 \<le> N" "retries (retryPolicy s) = N" "delay (retryPolicy s) = d"
      and "\<And>w url init. attempt_fails (fst (fetch w url init))"
      and "environment r = Some env" "env \<noteq> []" "user r = Some u" "user_id u = Some uid" "uid \<noteq> []"
      and "tm = (case t of None \<Rightarrow> defaultTimeout s | Some x \<Rightarrow> x)"
  shows "(flagsCache s (env @ '':'' @ uid) = None \<longrightarrow>
           steps (trace (snd (evaluateFlags fetch s r t))) =
             steps (trace s) @ concat (replicate (nat N - 1) [Call, Wait d]) @ [Call]
         \<and> network_calls (snd (evaluateFlags fetch s r t)) = network_calls s + nat N
         \<and> (\<exists>s_last e.
               steps (trace s_last) = steps (trace s) @ concat (replicate (nat N - 1) [Call, Wait d])
             \<and> fst (attempt_call fetch s_last ''/api/v1/evaluate/flags'' ''Failed to evaluate flags'' r tm) = Inl e
             \<and> evaluateFlags fetch s r t =
                 (Inl (Error (message e)),
                  log (snd (attempt_call fetch s_last ''/api/v1/evaluate/flags'' ''Failed to evaluate flags'' r tm))
                    (''Attempt '' @ string_of_int N @ '' failed.''))))
       \<and> (flag r \<noteq> None \<and> flagCache s (env @ '':'' @ uid) = None \<longrightarrow>
           steps (trace (snd (evaluateFlag fetch s r t))) =
             steps (trace s) @ concat (replicate (nat N - 1) [Call, Wait d]) @ [Call]
         \<and> network_calls (snd (evaluateFlag fetch s r t)) = network_calls s + nat N
         \<and> (\<exists>s_last e.
               steps (trace s_last) = steps (trace s) @ concat (replicate (nat N - 1) [Call, Wait d])
             \<and> fst (attempt_call fetch s_last ''/api/v1/evaluate/flag'' ''Failed to evaluate flag'' r tm) = Inl e
             \<and> evaluateFlag fetch s r t =
                 (Inl e,
                  log (snd (attempt_call fetch s_last ''/api/v1/evaluate/flag'' ''Failed to evaluate flag'' r tm))
                    (''Attempt '' @ string_of_int N @ '' failed.''))))"
proof (intro conjI impI)
  assume "flagsCache s (env @ '':'' @ uid) = None"
  from evaluateFlags_all_fail [where fetch = fetch and s = s, OF assms this]
  show "steps (trace (snd (evaluateFlags fetch s r t))) =
             steps (trace s) @ concat (replicate (nat N - 1) [Call, Wait d]) @ [Call]"
    and "network_calls (snd (evaluateFlags fetch s r t)) = network_calls s + nat N"
    and "\<exists>s_last e.
               steps (trace s_last) = steps (trace s) @ concat (replicate (nat N - 1) [Call, Wait d])
             \<and> fst (attempt_call fetch s_last ''/api/v1/evaluate/flags'' ''Failed to evaluate flags'' r tm) = Inl e
             \<and> evaluateFlags fetch s r t =
                 (Inl (Error (message e)),
                  log (snd (attempt_call fetch s_last ''/api/v1/evaluate/flags'' ''Failed to evaluate flags'' r tm))
                    (''Attempt '' @ string_of_int N @ '' failed.''))"
    by blast+
next
  assume "flag r \<noteq> None \<and> flagCache s (env @ '':'' @ uid) = None"
  then have "flag r \<noteq> None" "flagCache s (env @ '':'' @ uid) = None" by simp_all
  from evaluateFlag_all_fail [where fetch = fetch and s = s, OF assms this]
  show "steps (trace (snd (evaluateFlag fetch s r t))) =
             steps (trace s) @ concat (replicate (nat N - 1) [Call, Wait d]) @ [Call]"
    and "network_calls (snd (evaluateFlag fetch s r t)) = network_calls s + nat N"
    and "\<exists>s_last e.
               steps (trace s_last) = steps (trace s) @ concat (replicate (nat N - 1) [Call, Wait d])
             \<and> fst (attempt_call fetch s_last ''/api/v1/evaluate/flag'' ''Failed to evaluate flag'' r tm) = Inl e
             \<and> evaluateFlag fetch s r t =
                 (Inl e,
                  log (snd (attempt_call fetch s_last ''/api/v1/evaluate/flag'' ''Failed to evaluate flag'' r tm))
                    (''Attempt '' @ string_of_int N @ '' failed.''))"
    by blast+
qed

theorem C4_witness:
  "(1::int) \<le> 3 \<and> retries (retryPolicy ex_client) = 3 \<and> delay (retryPolicy ex_client) = 1000
   \<and> attempt_fails (fst (failing_transport 0 [] \<lparr>http_method = [], headers = [], body = ex_request, signal = None\<rparr>))
   \<and> flagsCache ex_client ''production:user1'' = None
   \<and> steps (trace (snd (evaluateFlags failing_transport ex_client ex_request None))) =
        [Call, Wait 1000, Call, Wait 1000, Call]
   \<and> network_calls (snd (evaluateFlags failing_transport ex_client ex_request None)) = 3
   \<and> fst (evaluateFlags failing_transport ex_client ex_request None) = Inl (Error ''Failed to fetch'')"
proof -
  have h: "(1::int) \<le> 3" "retries (retryPolicy ex_client) = 3" "delay (retryPolicy ex_client) = 1000"
    by (simp_all add: ex_client_def)
  have f: "\<And>w url init. attempt_fails (fst (failing_transport w url init))"
    by (simp add: failing_transport_def attempt_fails_def)
  have v: "environment ex_request = Some ''production''" "''production'' \<noteq> []"
    "user ex_request = Some \<lparr>user_id = Some ''user1'', email = Some ''user1@example.com''\<rparr>"
    "user_id \<lparr>user_id = Some ''user1'', email = Some ''user1@example.com''\<rparr> = Some ''user1''"
    "''user1'' \<noteq> []"
    by (simp_all add: ex_request_def)
  have m: "flagsCache ex_client ''production:user1'' = None" by (simp add: ex_client_def)
  have e: "fst (evaluateFlags failing_transport ex_client ex_request None) = Inl (Error ''Failed to fetch'')"
    by (simp add: example_defs run_defs)
  from C4_always_failing_transport [where fetch = failing_transport and s = ex_client and t = None,
         OF h f v refl] m
  have "steps (trace (snd (evaluateFlags failing_transport ex_client ex_request None))) =
          steps (trace ex_client) @ concat (replicate (nat 3 - 1) [Call, Wait 1000]) @ [Call]"
    and "network_calls (snd (evaluateFlags failing_transport ex_client ex_request None)) =
          network_calls ex_client + nat 3"
    by simp_all
  then have "steps (trace (snd (evaluateFlags failing_transport ex_client ex_request None))) =
        [Call, Wait 1000, Call, Wait 1000, Call]"
    and "network_calls (snd (evaluateFlags failing_transport ex_client ex_request None)) = 3"
    by (simp_all add: ex_client_def network_calls_def numeral_2_eq_2)
  with h f m e show ?thesis by simp
qed

text \<open>
  C5. Request validation fails under exactly three conditions, checked in this order, the
  first match deciding the message: single-flag mode without a \<open>flag\<close> field; a missing
  or empty \<open>environment\<close>; a missing \<open>user\<close> or a missing or empty \<open>user.id\<close>. When it
  fails, \<open>evaluateFlag\<close> and \<open>evaluateFlags\<close> raise its error whatever the caches and
  the transport are: the transport is not called, both caches and the transport state are
  as before, and the client is unchanged but for the debug message \<open>Evaluating ...\<close> in
  the log when debugging is on.
\<close>

theorem C5_validation_order:
  fixes fetch :: "'w transport" and s :: "'w client"
  shows "validateRequest isMultiple r =
           (if \<not> isMultiple \<and> flag r = None then Inl (Error ''Flag is required'')
            else if environment r = None \<or> environment r = Some []
              then Inl (Error ''Environment is required'')
            else if user r = None \<or> (\<exists>u. user r = Some u \<and> (user_id u = None \<or> user_id u = Some []))
              then Inl (Error ''User ID is required'')
            else Inr ())
       \<and> (\<forall>e. validateRequest False r = Inl e \<longrightarrow>
             evaluateFlag fetch s r t = (Inl e, log s ''Evaluating flag...'')
             \<and> network_calls (snd (evaluateFlag fetch s r t)) = network_calls s
             \<and> net (snd (evaluateFlag fetch s r t)) = net s
             \<and> flagCache (snd (evaluateFlag fetch s r t)) = flagCache s
             \<and> flagsCache (snd (evaluateFlag fetch s r t)) = flagsCache s
             \<and> (\<not> debug s \<longrightarrow> snd (evaluateFlag fetch s r t) = s))
       \<and> (\<forall>e. validateRequest True r = Inl e \<longrightarrow>
             evaluateFlags fetch s r t = (Inl e, log s ''Evaluating flags...'')
             \<and> network_calls (snd (evaluateFlags fetch s r t)) = network_calls s
             \<and> net (snd (evaluateFlags fetch s r t)) = net s
             \<and> flagCache (snd (evaluateFlags fetch s r t)) = flagCache s
             \<and> flagsCache (snd (evaluateFlags fetch s r t)) = flagsCache s
             \<and> (\<not> debug s \<longrightarrow> snd (evaluateFlags fetch s r t) = s))"
proof (intro conjI allI impI)
  show "validateRequest isMultiple r =
           (if \<not> isMultiple \<and> flag r = None then Inl (Error ''Flag is required'')
            else if environment r = None \<or> environment r = Some []
              then Inl (Error ''Environment is required'')
            else if user r = None \<or> (\<exists>u. user r = Some u \<and> (user_id u = None \<or> user_id u = Some []))
              then Inl (Error ''User ID is required'')
            else Inr ())"
    by (auto simp: validateRequest_def falsy_def split: option.splits)
next
  fix e assume "validateRequest False r = Inl e"
  then have ev: "evaluateFlag fetch s r t = (Inl e, log s ''Evaluating flag...'')"
    by (simp add: evaluateFlag_def Let_def)
  show "evaluateFlag fetch s r t = (Inl e, log s ''Evaluating flag...'')" by (rule ev)
  show "network_calls (snd (evaluateFlag fetch s r t)) = network_calls s" by (simp add: ev)
  show "net (snd (evaluateFlag fetch s r t)) = net s" by (simp add: ev)
  show "flagCache (snd (evaluateFlag fetch s r t)) = flagCache s" by (simp add: ev)
  show "flagsCache (snd (evaluateFlag fetch s r t)) = flagsCache s" by (simp add: ev)
  show "snd (evaluateFlag fetch s r t) = s" if "\<not> debug s" using that by (simp add: ev log_def)
next
  fix e assume "validateRequest True r = Inl e"
  then have ev: "evaluateFlags fetch s r t = (Inl e, log s ''Evaluating flags...'')"
    by (simp add: evaluateFlags_def Let_def)
  show "evaluateFlags fetch s r t = (Inl e, log s ''Evaluating flags...'')" by (rule ev)
  show "network_calls (snd (evaluateFlags fetch s r t)) = network_calls s" by (simp add: ev)
  show "net (snd (evaluateFlags fetch s r t)) = net s" by (simp add: ev)
  show "flagCache (snd (evaluateFlags fetch s r t)) = flagCache s" by (simp add: ev)
  show "flagsCache (snd (evaluateFlags fetch s r t)) = flagsCache s" by (simp add: ev)
  show "snd (evaluateFlags fetch s r t) = s" if "\<not> debug s" using that by (simp add: ev log_def)
qed

theorem C5_witness:
  "validateRequest False ex_request = Inl (Error ''Flag is required'')
   \<and> evaluateFlag (slow_transport ex_flag) ex_client ex_request None =
       (Inl (Error ''Flag is required''), ex_client)
   \<and> validateRequest True (ex_request\<lparr>user := Some \<lparr>user_id = None, email = Some ''user1@example.com''\<rparr>\<rparr>) =
       Inl (Error ''User ID is required'')"
proof -
  have v: "validateRequest False ex_request = Inl (Error ''Flag is required'')"
    by (simp add: validateRequest_def ex_request_def)
  have d: "\<not> debug ex_client" by (simp add: ex_client_def)
  from C5_validation_order [where fetch = "slow_transport ex_flag" and s = ex_client and r = ex_request
         and t = None and isMultiple = False] v d
  have "evaluateFlag (slow_transport ex_flag) ex_client ex_request None =
          (Inl (Error ''Flag is required''), log ex_client ''Evaluating flag...'')"
    by blast
  moreover have "log ex_client ''Evaluating flag...'' = ex_client" using d by (simp add: log_def)
  moreover have "validateRequest True (ex_request\<lparr>user := Some \<lparr>user_id = None, email = Some ''user1@example.com''\<rparr>\<rparr>) =
       Inl (Error ''User ID is required'')"
    by (simp add: validateRequest_def ex_request_def falsy_def)
  ultimately show ?thesis using v by simp
qed

text \<open>
  C6. For a valid request whose key \<open>environment:user.id\<close> is in the cache partition of
  the call, \<open>evaluateFlags\<close> (the multi-flag partition) and \<open>evaluateFlag\<close> (the
  single-flag partition) return the cached value as it is; the transport is not called,
  both caches, the pending eviction timers and the transport state are as before, and the
  client is unchanged but for the debug message in the log.
\<close>

theorem C6_cache_hit:
  fixes fetch :: "'w transport" and s :: "'w client"
  assumes "environment r = Some env" "env \<noteq> []" "user r = Some u" "user_id u = Some uid" "uid \<noteq> []"
  shows "(flagsCache s (env @ '':'' @ uid) = Some v \<longrightarrow>
            evaluateFlags fetch s r t = (Inr (Some v), log s ''Evaluating flags...'')
            \<and> network_calls (snd (evaluateFlags fetch s r t)) = network_calls s
            \<and> net (snd (evaluateFlags fetch s r t)) = net s
            \<and> flagsCache (snd (evaluateFlags fetch s r t)) = flagsCache s
            \<and> flagCache (snd (evaluateFlags fetch s r t)) = flagCache s
            \<and> timers (snd (evaluateFlags fetch s r t)) = timers s)
       \<and> (flag r \<noteq> None \<and> flagCache s (env @ '':'' @ uid) = Some v \<longrightarrow>
            evaluateFlag fetch s r t = (Inr (Some v), log s ''Evaluating flag...'')
            \<and> network_calls (snd (evaluateFlag fetch s r t)) = network_calls s
            \<and> net (snd (evaluateFlag fetch s r t)) = net s
            \<and> flagsCache (snd (evaluateFlag fetch s r t)) = flagsCache s
            \<and> flagCache (snd (evaluateFlag fetch s r t)) = flagCache s
            \<and> timers (snd (evaluateFlag fetch s r t)) = timers s)"
proof (intro conjI impI)
  assume hit: "flagsCache s (env @ '':'' @ uid) = Some v"
  have ev: "evaluateFlags fetch s r t = (Inr (Some v), log s ''Evaluating flags...'')"
    by (rule evaluateFlags_hit [OF assms hit])
  show "evaluateFlags fetch s r t = (Inr (Some v), log s ''Evaluating flags...'')" by (rule ev)
  show "network_calls (snd (evaluateFlags fetch s r t)) = network_calls s" by (simp add: ev)
  show "net (snd (evaluateFlags fetch s r t)) = net s" by (simp add: ev)
  show "flagsCache (snd (evaluateFlags fetch s r t)) = flagsCache s" by (simp add: ev)
  show "flagCache (snd (evaluateFlags fetch s r t)) = flagCache s" by (simp add: ev)
  show "timers (snd (evaluateFlags fetch s r t)) = timers s" by (simp add: ev)
next
  assume "flag r \<noteq> None \<and> flagCache s (env @ '':'' @ uid) = Some v"
  then have fl: "flag r \<noteq> None" and hit: "flagCache s (env @ '':'' @ uid) = Some v" by simp_all
  have ev: "evaluateFlag fetch s r t = (Inr (Some v), log s ''Evaluating flag...'')"
    by (rule evaluateFlag_hit [OF assms fl hit])
  show "evaluateFlag fetch s r t = (Inr (Some v), log s ''Evaluating flag...'')" by (rule ev)
  show "network_calls (snd (evaluateFlag fetch s r t)) = network_calls s" by (simp add: ev)
  show "net (snd (evaluateFlag fetch s r t)) = net s" by (simp add: ev)
  show "flagsCache (snd (evaluateFlag fetch s r t)) = flagsCache s" by (simp add: ev)
  show "flagCache (snd (evaluateFlag fetch s r t)) = flagCache s" by (simp add: ev)
  show "timers (snd (evaluateFlag fetch s r t)) = timers s" by (simp add: ev)
qed

theorem C6_witness:
  "flagsCache (ex_client\<lparr>flagsCache := [''production:user1'' \<mapsto> ex_flags]\<rparr>) ''production:user1'' = Some ex_flags
   \<and> fst (evaluateFlags failing_transport (ex_client\<lparr>flagsCache := [''production:user1'' \<mapsto> ex_flags]\<rparr>)
            ex_request None) = Inr (Some ex_flags)
   \<and> network_calls (snd (evaluateFlags failing_transport
            (ex_client\<lparr>flagsCache := [''production:user1'' \<mapsto> ex_flags]\<rparr>) ex_request None)) = 0"
proof -
  let ?s = "ex_client\<lparr>flagsCache := [''production:user1'' \<mapsto> ex_flags]\<rparr>"
  have v: "environment ex_request = Some ''production''" "''production'' \<noteq> []"
    "user ex_request = Some \<lparr>user_id = Some ''user1'', email = Some ''user1@example.com''\<rparr>"
    "user_id \<lparr>user_id = Some ''user1'', email = Some ''user1@example.com''\<rparr> = Some ''user1''"
    "''user1'' \<noteq> []"
    by (simp_all add: ex_request_def)
  have hit: "flagsCache ?s (''production'' @ '':'' @ ''user1'') = Some ex_flags" by simp
  from C6_cache_hit [where fetch = failing_transport and s = ?s and t = None and v = ex_flags, OF v] hit
  have "evaluateFlags failing_transport ?s ex_request None = (Inr (Some ex_flags), log ?s ''Evaluating flags...'')"
    and "network_calls (snd (evaluateFlags failing_transport ?s ex_request None)) = network_calls ?s"
    by blast+
  then show ?thesis by (simp add: network_calls_def ex_client_def)
qed




text \<open>
  C8. \<open>setRetryPolicy\<close> takes \<open>retries = 0\<close> as it is given. With that policy, for a
  valid request whose key is not in the cache, \<open>evaluateFlags\<close> and \<open>evaluateFlag\<close>
  never enter the loop: the transport is not called and the call resolves to
  \<open>undefined\<close> (\<open>Inr None\<close>), without an error.
\<close>

theorem C8_zero_retries:
  fixes fetch :: "'w transport" and s :: "'w client" and s' :: "'w client"
  assumes "retries (retryPolicy s) = 0"
      and "environment r = Some env" "env \<noteq> []" "user r = Some u" "user_id u = Some uid" "uid \<noteq> []"
  shows "retries (retryPolicy (setRetryPolicy s' 0 d)) = 0
       \<and> (flagsCache s (env @ '':'' @ uid) = None \<longrightarrow>
            evaluateFlags fetch s r t = (Inr None, log s ''Evaluating flags...'')
            \<and> network_calls (snd (evaluateFlags fetch s r t)) = network_calls s)
       \<and> (flag r \<noteq> None \<and> flagCache s (env @ '':'' @ uid) = None \<longrightarrow>
            evaluateFlag fetch s r t = (Inr None, log s ''Evaluating flag...'')
            \<and> network_calls (snd (evaluateFlag fetch s r t)) = network_calls s)"
proof (intro conjI impI)
  show "retries (retryPolicy (setRetryPolicy s' 0 d)) = 0"
    by (simp add: setRetryPolicy_def)
next
  assume miss: "flagsCache s (env @ '':'' @ uid) = None"
  have "\<not> 1 \<le> retries (retryPolicy (log s ''Evaluating flags...''))" using assms(1) by simp
  then have ev: "evaluateFlags fetch s r t = (Inr None, log s ''Evaluating flags...'')"
    by (simp add: evaluateFlags_miss [OF assms(2-6) miss] flags_loop_done)
  show "evaluateFlags fetch s r t = (Inr None, log s ''Evaluating flags...'')" by (rule ev)
  show "network_calls (snd (evaluateFlags fetch s r t)) = network_calls s" by (simp add: ev)
next
  assume "flag r \<noteq> None \<and> flagCache s (env @ '':'' @ uid) = None"
  then have fl: "flag r \<noteq> None" and miss: "flagCache s (env @ '':'' @ uid) = None" by simp_all
  have "\<not> 1 \<le> retries (retryPolicy (log s ''Evaluating flag...''))" using assms(1) by simp
  then have ev: "evaluateFlag fetch s r t = (Inr None, log s ''Evaluating flag...'')"
    by (simp add: evaluateFlag_miss [OF assms(2-6) fl miss] flag_loop_done)
  show "evaluateFlag fetch s r t = (Inr None, log s ''Evaluating flag...'')" by (rule ev)
  show "network_calls (snd (evaluateFlag fetch s r t)) = network_calls s" by (simp add: ev)
qed

theorem C8_witness:
  "retries (retryPolicy (setRetryPolicy ex_client 0 1000)) = 0
   \<and> flagsCache (setRetryPolicy ex_client 0 1000) ''production:user1'' = None
   \<and> fst (evaluateFlags (slow_transport ex_flags) (setRetryPolicy ex_client 0 1000) ex_request None) = Inr None
   \<and> network_calls (snd (evaluateFlags (slow_transport ex_flags) (setRetryPolicy ex_client 0 1000)
        ex_request None)) = 0"
proof -
  let ?s = "setRetryPolicy ex_client 0 1000"
  have z: "retries (retryPolicy ?s) = 0" by (simp add: setRetryPolicy_def)
  have v: "environment ex_request = Some ''production''" "''production'' \<noteq> []"
    "user ex_request = Some \<lparr>user_id = Some ''user1'', email = Some ''user1@example.com''\<rparr>"
    "user_id \<lparr>user_id = Some ''user1'', email = Some ''user1@example.com''\<rparr> = Some ''user1''"
    "''user1'' \<noteq> []"
    by (simp_all add: ex_request_def)
  have miss: "flagsCache ?s (''production'' @ '':'' @ ''user1'') = None"
    by (simp add: setRetryPolicy_def ex_client_def)
  from C8_zero_retries [where fetch = "slow_transport ex_flags" and s = ?s and t = None and s' = ex_client
         and d = 1000, OF z v] miss
  have "evaluateFlags (slow_transport ex_flags) ?s ex_request None = (Inr None, log ?s ''Evaluating flags...'')"
    and "network_calls (snd (evaluateFlags (slow_transport ex_flags) ?s ex_request None)) = network_calls ?s"
    by blast+
  moreover have "network_calls ?s = 0"
    by (simp add: network_calls_def setRetryPolicy_def log_def ex_client_def)
  ultimately show ?thesis using z miss by simp
qed

text \<open>
  C9. The cache key of a single-flag request is made of the environment and the user id
  only. Take two single-flag requests with the same environment and user id and different
  flags. Once \<open>evaluateFlag\<close> has returned a value for the first, \<open>evaluateFlag\<close> for the
  second, in the state the first call left, returns that same value from the cache and
  does not call the transport.
\<close>

theorem C9_cache_key_ignores_flag:
  fixes fetch :: "'w transport" and fetch' :: "'w transport" and s :: "'w client"
  assumes "environment r2 = environment r1"
      and "user r1 = Some u1" "user r2 = Some u2" "user_id u2 = user_id u1"
      and "flag r1 = Some f1" "flag r2 = Some f2" "f1 \<noteq> f2"
      and "evaluateFlag fetch s r1 ta = (Inr (Some v), s1)"
  shows "getCacheKey r2 = getCacheKey r1
       \<and> evaluateFlag fetch' s1 r2 tb = (Inr (Some v), log s1 ''Evaluating flag...'')
       \<and> network_calls (snd (evaluateFlag fetch' s1 r2 tb)) = network_calls s1"
proof -
  have key: "getCacheKey r2 = getCacheKey r1"
    using assms(1-4) by (simp add: getCacheKey_def)
  have "\<exists>x. validateRequest False r1 = Inr x"
    using assms(8) by (cases "validateRequest False r1") (auto simp: evaluateFlag_def Let_def)
  then obtain x where "validateRequest False r1 = Inr x" ..
  from validateRequest_Inr [OF this] assms(2) obtain env uid where
    v1: "environment r1 = Some env" "env \<noteq> []" "user r1 = Some u1" "user_id u1 = Some uid" "uid \<noteq> []"
    by auto
  have v2: "environment r2 = Some env" "env \<noteq> []" "user r2 = Some u2" "user_id u2 = Some uid" "uid \<noteq> []"
    using v1 assms(1,3,4) by simp_all
  have fl1: "flag r1 \<noteq> None" and fl2: "flag r2 \<noteq> None" using assms(5,6) by simp_all
  have cached: "flagCache s1 (env @ '':'' @ uid) = Some v"
  proof (cases "flagCache s (env @ '':'' @ uid)")
    case (Some c)
    from evaluateFlag_hit [OF v1 fl1 Some, of fetch ta] assms(8) Some show ?thesis by simp
  next
    case None
    from evaluateFlag_miss [OF v1 fl1 None, of fetch ta] assms(8)
    have "evaluateFlag_loop fetch (log s ''Evaluating flag...'') r1
            (case ta of None \<Rightarrow> defaultTimeout s | Some x \<Rightarrow> x) (env @ '':'' @ uid) 1 = (Inr (Some v), s1)"
      by simp
    with flag_loop_invariant [of fetch "log s ''Evaluating flag...''" r1
            "case ta of None \<Rightarrow> defaultTimeout s | Some x \<Rightarrow> x" "env @ '':'' @ uid" 1]
    show ?thesis by simp
  qed
  have ev: "evaluateFlag fetch' s1 r2 tb = (Inr (Some v), log s1 ''Evaluating flag...'')"
    by (rule evaluateFlag_hit [OF v2 fl2 cached])
  from key ev show ?thesis by simp
qed

theorem C9_witness:
  "fst (evaluateFlag (slow_transport ex_flag) ex_client ex_flag_request None) = Inr (Some ex_flag)
   \<and> flag ex_flag_request = Some ''flag-example''
   \<and> flag (ex_flag_request\<lparr>flag := Some ''other-flag''\<rparr>) = Some ''other-flag''
   \<and> fst (evaluateFlag failing_transport
            (snd (evaluateFlag (slow_transport ex_flag) ex_client ex_flag_request None))
            (ex_flag_request\<lparr>flag := Some ''other-flag''\<rparr>) None) = Inr (Some ex_flag)
   \<and> network_calls (snd (evaluateFlag failing_transport
            (snd (evaluateFlag (slow_transport ex_flag) ex_client ex_flag_request None))
            (ex_flag_request\<lparr>flag := Some ''other-flag''\<rparr>) None)) = 1"
proof -
  let ?first = "evaluateFlag (slow_transport ex_flag) ex_client ex_flag_request None"
  let ?r2 = "ex_flag_request\<lparr>flag := Some ''other-flag''\<rparr>"
  let ?u = "\<lparr>user_id = Some ''user1'', email = Some ''user1@example.com''\<rparr>"
  have f: "fst ?first = Inr (Some ex_flag)"
    by (simp add: example_defs run_defs)
  have n: "network_calls (snd ?first) = 1"
    by (simp add: example_defs run_defs network_calls_def)
  have first: "?first = (Inr (Some ex_flag), snd ?first)"
    using f by (simp add: prod_eq_iff)
  have h: "environment ?r2 = environment ex_flag_request"
    "user ex_flag_request = Some ?u" "user ?r2 = Some ?u" "user_id ?u = user_id ?u"
    "flag ex_flag_request = Some ''flag-example''" "flag ?r2 = Some ''other-flag''"
    "''flag-example'' \<noteq> ''other-flag''"
    by (simp_all add: ex_flag_request_def ex_request_def)
  from C9_cache_key_ignores_flag [where fetch = "slow_transport ex_flag" and fetch' = failing_transport
         and tb = None, OF h first]
  have "evaluateFlag failing_transport (snd ?first) ?r2 None =
          (Inr (Some ex_flag), log (snd ?first) ''Evaluating flag...'')"
    and "network_calls (snd (evaluateFlag failing_transport (snd ?first) ?r2 None)) = network_calls (snd ?first)"
    by simp_all
  with f n h(5,6) show ?thesis by simp
qed

text \<open>
  C10. Single-flag validation looks at the presence of the \<open>flag\<close> field, not at its
  content: for a request whose \<open>flag\<close> is the empty string, validation does not raise
  \<open>Flag is required\<close>; it goes on to the environment and user checks, with the result
  that multi-flag validation gives for the same request.
\<close>

theorem C10_empty_flag_passes:
  assumes "flag r = Some []"
  shows "validateRequest False r \<noteq> Inl (Error ''Flag is required'')
       \<and> validateRequest False r = validateRequest True r"
  using assms by (auto simp: validateRequest_def Error_def)

theorem C10_witness:
  "flag (ex_request\<lparr>flag := Some []\<rparr>) = Some []
   \<and> validateRequest False (ex_request\<lparr>flag := Some []\<rparr>) \<noteq> Inl (Error ''Flag is required'')
   \<and> validateRequest False (ex_request\<lparr>flag := Some []\<rparr>) = Inr ()"
proof -
  have h: "flag (ex_request\<lparr>flag := Some []\<rparr>) = Some []" by simp
  have "validateRequest True (ex_request\<lparr>flag := Some []\<rparr>) = Inr ()"
    by (simp add: validateRequest_def ex_request_def falsy_def)
  with C10_empty_flag_passes [OF h] h show ?thesis by simp
qed

end
